theory Spec2Isabelle
  imports Main
begin

section \<open>Errors and array primitives\<close>

text \<open>
  The Python sources signal failure by raising; every raise that the modelled code can
  reach is a value of \<open>error\<close>, and a fallible function returns \<open>error + 'a\<close>
  with \<open>Inl\<close> for the exception.

  The extents are one-dimensional \<open>numpy\<close> arrays of \<open>int64\<close>, whose sums and
  differences wrap around modulo \<open>2 ^ 64\<close>. They are modelled as lists of unbounded
  \<open>int\<close> and the arithmetic of the model does not wrap: a function of the model computes
  what the code computes as long as every number that the code stores in an array is
  representable, which \<open>int64\<close> states for one number. The theorems whose statement
  depends on the sums and differences (\<open>start_h\<close>, \<open>stop_h\<close>, the distances to the
  bounds of the globale extent) carry this as a hypothesis on the numbers concerned.
\<close>

datatype error = ValueError | KeyError | IndexError | TypeError | AttributeError

definition int64 :: "int \<Rightarrow> bool" where
  "int64 x \<longleftrightarrow> - 9223372036854775808 \<le> x \<and> x \<le> 9223372036854775807"

definition bind_e :: "error + 'a \<Rightarrow> ('a \<Rightarrow> error + 'b) \<Rightarrow> error + 'b" where
  "bind_e m f = (case m of Inl e \<Rightarrow> Inl e | Inr x \<Rightarrow> f x)"

text \<open>
  An element-wise binary operation of \<open>numpy\<close> on two one-dimensional arrays: arrays
  of the same length are combined position by position, an array of length one is
  broadcast against the other one, and any other pair of shapes raises \<open>ValueError\<close>.
\<close>

definition np_binop :: "(int \<Rightarrow> int \<Rightarrow> 'a) \<Rightarrow> int list \<Rightarrow> int list \<Rightarrow> error + 'a list" where
  "np_binop f xs ys =
     (if length xs = length ys then Inr (map2 f xs ys)
      else if length xs = 1 then Inr (map (f (hd xs)) ys)
      else if length ys = 1 then Inr (map (\<lambda>x. f x (hd ys)) xs)
      else Inl ValueError)"

text \<open>
  Reading and writing one element of an array at a non-negative index (the axes of the
  sources come from \<open>range(ndim)\<close>); an index past the end raises \<open>IndexError\<close>.
\<close>

definition np_get :: "'a list \<Rightarrow> nat \<Rightarrow> error + 'a" where
  "np_get xs i = (if i < length xs then Inr (xs ! i) else Inl IndexError)"

definition np_set :: "'a list \<Rightarrow> nat \<Rightarrow> 'a \<Rightarrow> error + 'a list" where
  "np_set xs i v = (if i < length xs then Inr (xs[i := v]) else Inl IndexError)"

section \<open>Module \<open>indexing\<close>: \<open>IndexingExtent\<close>\<close>

text \<open>
  \<open>IndexingExtent\<close> holds the arrays \<open>_beg\<close> and \<open>_end\<close> of the half-open box
  \<open>[_beg, _end)\<close>. The class is defined twice, in \<open>indexing.py\<close> and in
  \<open>decomposition.py\<close>, with the same \<open>calc_intersection\<close>.
\<close>

record IndexingExtent =
  ext_beg :: "int list"
  ext_end :: "int list"

definition ndim :: "'a IndexingExtent_scheme \<Rightarrow> nat" where
  "ndim self = length (ext_beg self)"

text \<open>
  \<open>calc_intersection\<close>: the element-wise maximum of the starts and minimum of the stops;
  \<open>None\<close> as soon as one axis has \<open>start >= stop\<close>.
\<close>

definition calc_intersection ::
  "'a IndexingExtent_scheme \<Rightarrow> 'b IndexingExtent_scheme \<Rightarrow> error + IndexingExtent option" where
  "calc_intersection self other =
     bind_e (np_binop max (ext_beg self) (ext_beg other)) (\<lambda>b.
     bind_e (np_binop min (ext_end self) (ext_end other)) (\<lambda>e.
     bind_e (np_binop (\<lambda>x y. x \<ge> y) b e) (\<lambda>ge.
       Inr (if list_ex (\<lambda>t. t) ge then None else Some \<lparr>ext_beg = b, ext_end = e\<rparr>))))"

text \<open>
  \<open>split(a, index)\<close> cuts the extent along axis \<open>a\<close> at \<open>index\<close>. The constructor
  copies the arrays it is given, so \<open>lo\<close> keeps the start it was built from when
  \<open>b[a] = index\<close> is executed afterwards.
\<close>

definition split ::
  "IndexingExtent \<Rightarrow> nat \<Rightarrow> int \<Rightarrow> error + (IndexingExtent option \<times> IndexingExtent option)" where
  "split self a index =
     bind_e (np_get (ext_beg self) a) (\<lambda>ba.
       if index \<le> ba then Inr (None, Some self)
       else bind_e (np_get (ext_end self) a) (\<lambda>ea.
         if index \<ge> ea then Inr (Some self, None)
         else Inr (Some \<lparr>ext_beg = ext_beg self, ext_end = (ext_end self)[a := index]\<rparr>,
                   Some \<lparr>ext_beg = (ext_beg self)[a := index], ext_end = ext_end self\<rparr>)))"

text \<open>
  The loop of \<open>calc_intersection_split\<close> over the axes. The deque \<open>q\<close> is a list whose
  right end is popped; popping the empty deque raises \<open>IndexError\<close>. The state is the
  pair of \<open>q\<close> and \<open>leftovers\<close>.
\<close>

fun split_loop ::
  "IndexingExtent \<Rightarrow> nat list \<Rightarrow> IndexingExtent list \<Rightarrow> IndexingExtent list
     \<Rightarrow> error + (IndexingExtent list \<times> IndexingExtent list)" where
  "split_loop intersection [] q leftovers = Inr (q, leftovers)"
| "split_loop intersection (a # as) q leftovers =
     (if q = [] then Inl IndexError
      else
        (case np_get (ext_beg intersection) a of Inl err \<Rightarrow> Inl err | Inr ib \<Rightarrow>
        (case split (last q) a ib of Inl err \<Rightarrow> Inl err | Inr (lo, hi) \<Rightarrow>
          (let q1 = butlast q;
               l1 = (case lo of None \<Rightarrow> leftovers | Some x \<Rightarrow> leftovers @ [x])
           in case hi of
                None \<Rightarrow> split_loop intersection as q1 l1
              | Some h \<Rightarrow>
                  (case np_get (ext_end intersection) a of Inl err \<Rightarrow> Inl err | Inr ie \<Rightarrow>
                  (case split h a ie of Inl err \<Rightarrow> Inl err | Inr (lo2, hi2) \<Rightarrow>
                     split_loop intersection as
                       (case lo2 of None \<Rightarrow> q1 | Some x \<Rightarrow> q1 @ [x])
                       (case hi2 of None \<Rightarrow> l1 | Some x \<Rightarrow> l1 @ [x])))))))"

definition calc_intersection_split ::
  "IndexingExtent \<Rightarrow> IndexingExtent \<Rightarrow> error + (IndexingExtent list \<times> IndexingExtent option)" where
  "calc_intersection_split self other =
     bind_e (calc_intersection self other) (\<lambda>intersection.
       case intersection of
         Some i \<Rightarrow>
           bind_e (split_loop i [0..<ndim self] [self] []) (\<lambda>(q, leftovers).
             Inr (leftovers, Some i))
       | None \<Rightarrow> Inr ([other], None))"

text \<open>
  The index set of an extent: the points of its dimension that lie in the half-open box.
\<close>

definition idx :: "'a IndexingExtent_scheme \<Rightarrow> int list set" where
  "idx e = {p. length p = length (ext_beg e) \<and>
               (\<forall>i<length (ext_beg e). ext_beg e ! i \<le> p ! i \<and> p ! i < ext_end e ! i)}"

section \<open>Extents with halo\<close>

text \<open>
  \<open>HaloIndexingExtent\<close> adds the halo, an array of shape \<open>(ndim, 2)\<close>: row \<open>a\<close> holds the
  number of ghost elements on the low side (\<open>LO = 0\<close>) and on the high side (\<open>HI = 1\<close>) of
  axis \<open>a\<close>. The halo is held in this array form; \<open>convert_halo_to_array_form\<close> of the
  \<open>array_split\<close> package, which produces it from the caller's argument, is not part of
  the sources.
\<close>

datatype side = LO | HI

record HaloIndexingExtent = IndexingExtent +
  halo :: "(int \<times> int) list"

fun halo_column :: "(int \<times> int) list \<Rightarrow> side \<Rightarrow> int list" where
  "halo_column h LO = map fst h"
| "halo_column h HI = map snd h"

fun halo_entry :: "(int \<times> int) \<Rightarrow> side \<Rightarrow> int" where
  "halo_entry h LO = fst h"
| "halo_entry h HI = snd h"

definition halo_at :: "(int \<times> int) list \<Rightarrow> nat \<Rightarrow> side \<Rightarrow> error + int" where
  "halo_at h axis dir = bind_e (np_get h axis) (\<lambda>row. Inr (halo_entry row dir))"

definition start_h :: "'a HaloIndexingExtent_scheme \<Rightarrow> error + int list" where
  "start_h self = np_binop (\<lambda>x y. x - y) (ext_beg self) (halo_column (halo self) LO)"

definition stop_h :: "'a HaloIndexingExtent_scheme \<Rightarrow> error + int list" where
  "stop_h self = np_binop (\<lambda>x y. x + y) (ext_end self) (halo_column (halo self) HI)"

text \<open>
  \<open>halo_slab_extent\<close> and \<open>no_halo_extent\<close> are defined with the same text on
  \<open>DecompExtent\<close> (\<open>decomposition.py\<close>) and on \<open>LocaleExtent\<close> (\<open>distribution.py\<close>).
  The axis of \<open>no_halo_extent\<close> may be \<open>None\<close>, in which case nothing is trimmed.
\<close>

definition halo_slab_extent ::
  "'a HaloIndexingExtent_scheme \<Rightarrow> nat \<Rightarrow> side \<Rightarrow> error + IndexingExtent" where
  "halo_slab_extent self axis dir =
     bind_e (start_h self) (\<lambda>start.
     bind_e (stop_h self) (\<lambda>stop.
       case dir of
         LO \<Rightarrow>
           bind_e (np_get start axis) (\<lambda>s.
           bind_e (halo_at (halo self) axis LO) (\<lambda>h.
           bind_e (np_set stop axis (s + h)) (\<lambda>stop'.
             Inr \<lparr>ext_beg = start, ext_end = stop'\<rparr>)))
       | HI \<Rightarrow>
           bind_e (np_get stop axis) (\<lambda>s.
           bind_e (halo_at (halo self) axis HI) (\<lambda>h.
           bind_e (np_set start axis (s - h)) (\<lambda>start'.
             Inr \<lparr>ext_beg = start', ext_end = stop\<rparr>)))))"

definition no_halo_extent ::
  "'a HaloIndexingExtent_scheme \<Rightarrow> nat option \<Rightarrow> error + IndexingExtent" where
  "no_halo_extent self axis =
     bind_e (start_h self) (\<lambda>start.
     bind_e (stop_h self) (\<lambda>stop.
       case axis of
         None \<Rightarrow> Inr \<lparr>ext_beg = start, ext_end = stop\<rparr>
       | Some a \<Rightarrow>
           bind_e (np_get start a) (\<lambda>s.
           bind_e (halo_at (halo self) a LO) (\<lambda>hl.
           bind_e (np_set start a (s + hl)) (\<lambda>start'.
           bind_e (np_get stop a) (\<lambda>t.
           bind_e (halo_at (halo self) a HI) (\<lambda>hh.
           bind_e (np_set stop a (t - hh)) (\<lambda>stop'.
             Inr \<lparr>ext_beg = start', ext_end = stop'\<rparr>))))))))"

section \<open>Module \<open>decomposition\<close>: \<open>DecompExtent\<close> and the halo-update planner\<close>

record DecompExtent = HaloIndexingExtent +
  cart_rank :: int
  cart_coord :: "int list"
  cart_shape :: "int list"
  array_shape :: "int list"

text \<open>
  \<open>DecompExtent.__init__\<close>. The slices are pairs \<open>(start, stop)\<close>; the flag says whether
  \<open>bounds_policy == ARRAY_BOUNDS\<close> (a constant of \<open>array_split\<close>), in which case the
  halo is cut down to the distance to the array bounds. \<open>numpy.array((lo, hi))\<close> needs
  two rows of the same length.
\<close>

definition DecompExtent_init ::
  "int \<Rightarrow> int list \<Rightarrow> int list \<Rightarrow> int list \<Rightarrow> (int \<times> int) list \<Rightarrow> (int \<times> int) list \<Rightarrow> bool
     \<Rightarrow> error + DecompExtent" where
  "DecompExtent_init rank coord shape ashape slice h array_bounds =
     (let b = map fst slice; e = map snd slice in
      if array_bounds then
        bind_e (np_binop min b (halo_column h LO)) (\<lambda>lo.
        bind_e (np_binop (\<lambda>x y. x - y) ashape e) (\<lambda>room.
        bind_e (np_binop min room (halo_column h HI)) (\<lambda>hi.
          if length lo = length hi
          then Inr \<lparr>ext_beg = b, ext_end = e, halo = zip lo hi, cart_rank = rank,
                    cart_coord = coord, cart_shape = shape, array_shape = ashape\<rparr>
          else Inl ValueError)))
      else Inr \<lparr>ext_beg = b, ext_end = e, halo = h, cart_rank = rank,
                cart_coord = coord, cart_shape = shape, array_shape = ashape\<rparr>)"

record SingleExtentUpdate =
  upd_dst_extent :: DecompExtent
  upd_src_extent :: DecompExtent
  update_extent :: IndexingExtent

text \<open>
  The state of a \<open>HalosUpdate\<close> object. \<open>_updates\<close> is a list of lists of lists, and the
  planner mutates the innermost lists in place, so the list objects live in an explicit
  store: \<open>updates\<close> is the outer list and holds the addresses of row objects,
  \<open>row_heap\<close> maps the address of a row object to the addresses of its buckets, and
  \<open>bucket_heap\<close> maps the address of a bucket to the records it holds.
\<close>

record HalosUpdate =
  dst_rank :: int
  dst_extent :: DecompExtent
  updates :: "nat list"
  row_heap :: "nat \<Rightarrow> nat list"
  bucket_heap :: "nat \<Rightarrow> SingleExtentUpdate list"

fun side_index :: "side \<Rightarrow> nat" where
  "side_index LO = 0"
| "side_index HI = 1"

text \<open>Reading \<open>self._updates[a][dir]\<close>.\<close>

definition get_updates :: "HalosUpdate \<Rightarrow> nat \<Rightarrow> side \<Rightarrow> error + SingleExtentUpdate list" where
  "get_updates hu a dir =
     bind_e (np_get (updates hu) a) (\<lambda>row.
     bind_e (np_get (row_heap hu row) (side_index dir)) (\<lambda>b.
       Inr (bucket_heap hu b)))"

text \<open>
  \<open>self._updates[a][dir] += xs\<close>: the bucket object found through row \<open>a\<close> is extended in
  place, and the row keeps pointing to it.
\<close>

definition bucket_iadd ::
  "HalosUpdate \<Rightarrow> nat \<Rightarrow> side \<Rightarrow> SingleExtentUpdate list \<Rightarrow> error + HalosUpdate" where
  "bucket_iadd hu a dir xs =
     bind_e (np_get (updates hu) a) (\<lambda>row.
     bind_e (np_get (row_heap hu row) (side_index dir)) (\<lambda>b.
       Inr (hu\<lparr>bucket_heap := (bucket_heap hu)(b := bucket_heap hu b @ xs)\<rparr>)))"

definition calc_halo_intersection ::
  "'a HaloIndexingExtent_scheme \<Rightarrow> 'b HaloIndexingExtent_scheme \<Rightarrow> nat \<Rightarrow> side
     \<Rightarrow> error + IndexingExtent option" where
  "calc_halo_intersection dst src axis dir =
     bind_e (halo_slab_extent dst axis dir) (\<lambda>slab.
     bind_e (no_halo_extent src (Some axis)) (\<lambda>nh.
       calc_intersection slab nh))"

definition split_extent_for_max_elements :: "SingleExtentUpdate \<Rightarrow> SingleExtentUpdate list" where
  "split_extent_for_max_elements extent = [extent]"

text \<open>
  The steps \<open>i_range\<close> of the walk along axis \<open>a\<close>: \<open>range(-1, -cart_coord[a] - 1, -1)\<close>
  on the low side and \<open>range(1, cart_shape[a] - cart_coord[a], 1)\<close> on the high side.
\<close>

definition i_range :: "DecompExtent \<Rightarrow> nat \<Rightarrow> side \<Rightarrow> error + int list" where
  "i_range dst a dir =
     (case dir of
        LO \<Rightarrow> bind_e (np_get (cart_coord dst) a) (\<lambda>c. Inr (map uminus [1..c]))
      | HI \<Rightarrow> bind_e (np_get (cart_shape dst) a) (\<lambda>s.
              bind_e (np_get (cart_coord dst) a) (\<lambda>c. Inr [1..s - c - 1])))"

text \<open>The neighbour of \<open>dst\<close> that lies \<open>i\<close> steps away along axis \<open>a\<close>.\<close>

definition neighbour ::
  "(int list \<rightharpoonup> DecompExtent) \<Rightarrow> DecompExtent \<Rightarrow> nat \<Rightarrow> int \<Rightarrow> error + DecompExtent" where
  "neighbour d dst a i =
     bind_e (np_get (cart_coord dst) a) (\<lambda>c.
     bind_e (np_set (cart_coord dst) a (c + i)) (\<lambda>src_cart_coord.
       case d src_cart_coord of None \<Rightarrow> Inl KeyError | Some src \<Rightarrow> Inr src))"

text \<open>
  The innermost loop of \<open>initialise\<close>, over the steps \<open>i\<close>; an absent overlap leaves the
  loop (\<open>break\<close>).
\<close>

fun walk_loop ::
  "HalosUpdate \<Rightarrow> (int list \<rightharpoonup> DecompExtent) \<Rightarrow> nat \<Rightarrow> side \<Rightarrow> int list \<Rightarrow> error + HalosUpdate" where
  "walk_loop hu d a dir [] = Inr hu"
| "walk_loop hu d a dir (i # is) =
     (case neighbour d (dst_extent hu) a i of Inl err \<Rightarrow> Inl err | Inr src \<Rightarrow>
     (case calc_halo_intersection (dst_extent hu) src a dir of Inl err \<Rightarrow> Inl err
      | Inr None \<Rightarrow> Inr hu
      | Inr (Some halo_extent) \<Rightarrow>
          (case bucket_iadd hu a dir
                  (split_extent_for_max_elements
                     \<lparr>upd_dst_extent = dst_extent hu, upd_src_extent = src,
                      update_extent = halo_extent\<rparr>) of
             Inl err \<Rightarrow> Inl err
           | Inr hu' \<Rightarrow> walk_loop hu' d a dir is)))"

fun axis_loop ::
  "HalosUpdate \<Rightarrow> (int list \<rightharpoonup> DecompExtent) \<Rightarrow> side \<Rightarrow> nat list \<Rightarrow> error + HalosUpdate" where
  "axis_loop hu d dir [] = Inr hu"
| "axis_loop hu d dir (a # as) =
     (case i_range (dst_extent hu) a dir of Inl err \<Rightarrow> Inl err | Inr is \<Rightarrow>
     (case walk_loop hu d a dir is of Inl err \<Rightarrow> Inl err | Inr hu' \<Rightarrow>
        axis_loop hu' d dir as))"

fun dir_loop ::
  "HalosUpdate \<Rightarrow> (int list \<rightharpoonup> DecompExtent) \<Rightarrow> side list \<Rightarrow> error + HalosUpdate" where
  "dir_loop hu d [] = Inr hu"
| "dir_loop hu d (dir # dirs) =
     (case axis_loop hu d dir [0..<ndim (dst_extent hu)] of Inl err \<Rightarrow> Inl err
      | Inr hu' \<Rightarrow> dir_loop hu' d dirs)"

text \<open>
  The dictionary \<open>rank_to_extents_dict\<close> is an association list with distinct keys, in
  the order of its keys.
  The dictionary by cartesian coordinate is built from it by a comprehension; a later
  rank with the same coordinate replaces an earlier one.
\<close>

definition cart_coord_to_extents_dict ::
  "(int \<times> DecompExtent) list \<Rightarrow> (int list \<rightharpoonup> DecompExtent)" where
  "cart_coord_to_extents_dict rank_to_extents_dict =
     fold (\<lambda>(r, e) m. m(cart_coord e \<mapsto> e)) rank_to_extents_dict Map.empty"

text \<open>
  \<open>initialise\<close>. The expression \<open>[[[], []]] * ndim\<close> evaluates \<open>[[], []]\<close> once: two empty
  buckets (addresses 0 and 1) and one row object (address 0) are allocated, and the outer
  list holds \<open>ndim\<close> references to that one row.
\<close>

definition initialise :: "int \<Rightarrow> (int \<times> DecompExtent) list \<Rightarrow> error + HalosUpdate" where
  "initialise rank rank_to_extents_dict =
     (case map_of rank_to_extents_dict rank of
        None \<Rightarrow> Inl KeyError
      | Some dst \<Rightarrow>
          dir_loop
            \<lparr>dst_rank = rank, dst_extent = dst,
             updates = replicate (ndim dst) 0,
             row_heap = (\<lambda>_. [])(0 := [0, 1]),
             bucket_heap = (\<lambda>_. [])\<rparr>
            (cart_coord_to_extents_dict rank_to_extents_dict) [LO, HI])"

text \<open>
  The records that the walk along axis \<open>a\<close> on side \<open>dir\<close> produces, in the order of the
  steps: what the innermost loop appends, apart from the bucket that receives it.
\<close>

fun walk_records ::
  "DecompExtent \<Rightarrow> (int list \<rightharpoonup> DecompExtent) \<Rightarrow> nat \<Rightarrow> side \<Rightarrow> int list
     \<Rightarrow> error + SingleExtentUpdate list" where
  "walk_records dst d a dir [] = Inr []"
| "walk_records dst d a dir (i # is) =
     (case neighbour d dst a i of Inl err \<Rightarrow> Inl err | Inr src \<Rightarrow>
     (case calc_halo_intersection dst src a dir of Inl err \<Rightarrow> Inl err
      | Inr None \<Rightarrow> Inr []
      | Inr (Some halo_extent) \<Rightarrow>
          (case walk_records dst d a dir is of Inl err \<Rightarrow> Inl err
           | Inr rs \<Rightarrow>
               Inr (split_extent_for_max_elements
                      \<lparr>upd_dst_extent = dst, upd_src_extent = src,
                       update_extent = halo_extent\<rparr> @ rs))))"

section \<open>Module \<open>distribution\<close>: extents of locales\<close>

text \<open>
  \<open>IndexingExtent.__init__\<close> of \<open>indexing.py\<close> sets \<open>_beg\<close> and \<open>_end\<close> from the slices
  when they are given, else from \<open>stop\<close> alone (the start is then zero), else from
  \<open>start\<close> and \<open>stop\<close>. With neither slices nor \<open>stop\<close> it sets nothing.
\<close>

definition extent_bounds ::
  "(int \<times> int) list option \<Rightarrow> int list option \<Rightarrow> int list option \<Rightarrow> (int list \<times> int list) option" where
  "extent_bounds slice start stop =
     (case slice of
        Some sl \<Rightarrow> Some (map fst sl, map snd sl)
      | None \<Rightarrow>
          (case (start, stop) of
             (None, Some e) \<Rightarrow> Some (map (\<lambda>_. 0) e, e)
           | (Some b, Some e) \<Rightarrow> Some (b, e)
           | (_, None) \<Rightarrow> None))"

text \<open>
  \<open>HaloSubExtent.__init__\<close>. The base constructor is called with \<open>halo=None\<close> and reads
  \<open>self._beg\<close>, which raises \<open>AttributeError\<close> when no bounds were set. The requested halo
  \<open>h\<close> is in array form. The halo stored is
  \<open>maximum(0, (minimum(start_n - globale.start_h, h[:, LO]),
  minimum(globale.stop_h - stop_n, h[:, HI])).T)\<close>.
\<close>

definition HaloSubExtent_init ::
  "'a HaloIndexingExtent_scheme \<Rightarrow> (int \<times> int) list option \<Rightarrow> (int \<times> int) list
     \<Rightarrow> int list option \<Rightarrow> int list option \<Rightarrow> error + HaloIndexingExtent" where
  "HaloSubExtent_init globale slice h start stop =
     (case extent_bounds slice start stop of
        None \<Rightarrow> Inl AttributeError
      | Some (b, e) \<Rightarrow>
          bind_e (start_h globale) (\<lambda>gs.
          bind_e (np_binop (\<lambda>x y. x - y) b gs) (\<lambda>room_lo.
          bind_e (np_binop min room_lo (halo_column h LO)) (\<lambda>lo.
          bind_e (stop_h globale) (\<lambda>gt.
          bind_e (np_binop (\<lambda>x y. x - y) gt e) (\<lambda>room_hi.
          bind_e (np_binop min room_hi (halo_column h HI)) (\<lambda>hi.
            if length lo = length hi
            then Inr \<lparr>ext_beg = b, ext_end = e,
                      halo = map (\<lambda>(l, u). (max 0 l, max 0 u)) (zip lo hi)\<rparr>
            else Inl ValueError)))))))"

record LocaleExtent = HaloIndexingExtent +
  rank :: int
  inter_locale_rank :: int

definition LocaleExtent_init ::
  "int \<Rightarrow> int \<Rightarrow> 'a HaloIndexingExtent_scheme \<Rightarrow> (int \<times> int) list option \<Rightarrow> (int \<times> int) list
     \<Rightarrow> int list option \<Rightarrow> int list option \<Rightarrow> error + LocaleExtent" where
  "LocaleExtent_init r ilr globale slice h start stop =
     bind_e (HaloSubExtent_init globale slice h start stop) (\<lambda>sub.
       Inr \<lparr>ext_beg = ext_beg sub, ext_end = ext_end sub, halo = halo sub,
            rank = r, inter_locale_rank = ilr\<rparr>)"

text \<open>
  \<open>IndexingExtent.__eq__\<close> compares the starts and the stops; \<open>and\<close> does not evaluate
  its second operand when the first is false. Neither \<open>HaloIndexingExtent\<close> nor
  \<open>HaloSubExtent\<close> defines \<open>__eq__\<close>, so \<open>HaloSubExtent.__eq__(self, other)\<close> in
  \<open>LocaleExtent.__eq__\<close> is this method. Arrays whose shapes cannot be broadcast are
  reported as \<open>ValueError\<close>, as current \<open>numpy\<close> does.
\<close>

definition IndexingExtent_eq ::
  "'a IndexingExtent_scheme \<Rightarrow> 'b IndexingExtent_scheme \<Rightarrow> error + bool" where
  "IndexingExtent_eq self other =
     bind_e (np_binop (\<lambda>x y. x = y) (ext_beg self) (ext_beg other)) (\<lambda>bs.
       if list_all (\<lambda>t. t) bs
       then bind_e (np_binop (\<lambda>x y. x = y) (ext_end self) (ext_end other)) (\<lambda>es.
              Inr (list_all (\<lambda>t. t) es))
       else Inr False)"

definition LocaleExtent_eq ::
  "'a LocaleExtent_scheme \<Rightarrow> 'b LocaleExtent_scheme \<Rightarrow> error + bool" where
  "LocaleExtent_eq self other =
     bind_e (IndexingExtent_eq self other) (\<lambda>same_box.
       Inr (same_box \<and> rank self = rank other \<and>
            inter_locale_rank self = inter_locale_rank other))"

record CartLocaleExtent = LocaleExtent +
  locale_cart_coord :: "int list"
  locale_cart_shape :: "int list"

definition CartLocaleExtent_init ::
  "int \<Rightarrow> int \<Rightarrow> int list \<Rightarrow> int list \<Rightarrow> 'a HaloIndexingExtent_scheme
     \<Rightarrow> (int \<times> int) list option \<Rightarrow> (int \<times> int) list
     \<Rightarrow> int list option \<Rightarrow> int list option \<Rightarrow> error + CartLocaleExtent" where
  "CartLocaleExtent_init r ilr coord shape globale slice h start stop =
     bind_e (LocaleExtent_init r ilr globale slice h start stop) (\<lambda>le.
       Inr \<lparr>ext_beg = ext_beg le, ext_end = ext_end le, halo = halo le,
            rank = rank le, inter_locale_rank = inter_locale_rank le,
            locale_cart_coord = coord, locale_cart_shape = shape\<rparr>)"

section \<open>Module \<open>distribution\<close>: \<open>Distribution\<close>\<close>

text \<open>
  The class that \<open>create_locale_extent\<close> instantiates is the argument
  \<open>locale_extent_type\<close>; the object created is an instance of \<open>LocaleExtent\<close> or of
  \<open>CartLocaleExtent\<close>. \<open>GlobaleExtent\<close> is \<open>HaloIndexingExtent\<close> under another name: its
  constructor has no parameters \<open>rank\<close>, \<open>inter_locale_rank\<close> and \<open>globale_extent\<close>, and a
  call that passes them raises \<open>TypeError\<close>. So does a call whose keyword arguments do
  not fit the constructor.
\<close>

datatype extent_type = GlobaleExtentT | LocaleExtentT | CartLocaleExtentT

datatype locale_object = Locale LocaleExtent | CartLocale CartLocaleExtent

fun rank_of :: "locale_object \<Rightarrow> int" where
  "rank_of (Locale e) = rank e"
| "rank_of (CartLocale e) = rank e"

fun inter_locale_rank_of :: "locale_object \<Rightarrow> int" where
  "inter_locale_rank_of (Locale e) = inter_locale_rank e"
| "inter_locale_rank_of (CartLocale e) = inter_locale_rank e"

text \<open>
  What a caller may pass as an extent: an object with \<open>start\<close> and \<open>stop\<close>, a sequence of
  slices, a sequence of integers (a shape), or something else. A \<open>GlobaleExtent\<close> passed
  to \<open>create_globale_extent\<close> is the first form together with its class.
\<close>

datatype extent_spec =
    GivenGlobale HaloIndexingExtent
  | StartStop "int list" "int list"
  | Slices "(int \<times> int) list"
  | Shape "int list"
  | Unusable

text \<open>
  Modelled from the spec: \<open>convert_halo_to_array_form\<close> belongs to the package
  \<open>array_split\<close> and is not in the sources; for the integer halo \<open>0\<close> and \<open>ndim\<close> axes
  it gives the zero matrix of shape \<open>(ndim, 2)\<close> (a uniform halo).
\<close>

definition zero_halo :: "nat \<Rightarrow> (int \<times> int) list" where
  "zero_halo n = replicate n (0, 0)"

text \<open>
  \<open>create_globale_extent\<close> sets \<open>halo = 0\<close> whatever it is given. Its last branch
  builds the message of a \<open>ValueError\<close> from \<open>self._globale_extent\<close>, an attribute that
  does not exist yet when the constructors call it, so the exception that leaves it is
  \<open>AttributeError\<close>.
\<close>

fun create_globale_extent :: "extent_spec \<Rightarrow> error + HaloIndexingExtent" where
  "create_globale_extent (GivenGlobale g) =
     Inr (g\<lparr>halo := zero_halo (ndim g)\<rparr>)"
| "create_globale_extent (Slices sl) =
     Inr \<lparr>ext_beg = map fst sl, ext_end = map snd sl, halo = zero_halo (length sl)\<rparr>"
| "create_globale_extent (Shape stop) =
     Inr \<lparr>ext_beg = map (\<lambda>_. 0) stop, ext_end = stop, halo = zero_halo (length stop)\<rparr>"
| "create_globale_extent (StartStop start stop) =
     Inr \<lparr>ext_beg = start, ext_end = stop, halo = zero_halo (length start)\<rparr>"
| "create_globale_extent Unusable = Inl AttributeError"

record Distribution =
  locale_extent_type :: extent_type
  inter_locale_rank_to_rank :: "int list option"
  globale_extent :: HaloIndexingExtent
  distribution_halo :: "(int \<times> int) list"
  locale_extents :: "locale_object list"

text \<open>
  \<open>get_rank\<close>. The constant \<open>UNDEFINED\<close> of \<open>mpi4py.MPI\<close> is a parameter, and so is the
  table \<open>inter_locale_rank_to_rank\<close>, absent (\<open>None\<close>) by default.
\<close>

definition get_rank :: "int \<Rightarrow> int list option \<Rightarrow> nat \<Rightarrow> error + int" where
  "get_rank UNDEFINED table ilr =
     (case table of
        None \<Rightarrow> Inr UNDEFINED
      | Some t \<Rightarrow> np_get t ilr)"

text \<open>
  \<open>create_locale_extent\<close>. An empty sequence passes the test that all its elements are
  slices. The keyword arguments \<open>**kwargs\<close> are either empty or the pair
  \<open>cart_coord\<close>, \<open>cart_shape\<close> that \<open>BlockPartition.create_locale_extent\<close> adds.
\<close>

definition construct_locale ::
  "extent_type \<Rightarrow> int \<Rightarrow> int \<Rightarrow> HaloIndexingExtent \<Rightarrow> (int \<times> int) list option
     \<Rightarrow> (int \<times> int) list \<Rightarrow> int list option \<Rightarrow> int list option
     \<Rightarrow> (int list \<times> int list) option \<Rightarrow> error + locale_object" where
  "construct_locale t r ilr globale slice h start stop kwargs =
     (case (t, kwargs) of
        (LocaleExtentT, None) \<Rightarrow>
          bind_e (LocaleExtent_init r ilr globale slice h start stop) (\<lambda>e. Inr (Locale e))
      | (CartLocaleExtentT, Some (coord, shape)) \<Rightarrow>
          bind_e (CartLocaleExtent_init r ilr coord shape globale slice h start stop)
            (\<lambda>e. Inr (CartLocale e))
      | _ \<Rightarrow> Inl TypeError)"

definition create_locale_extent ::
  "int \<Rightarrow> extent_type \<Rightarrow> int list option \<Rightarrow> nat \<Rightarrow> extent_spec \<Rightarrow> HaloIndexingExtent
     \<Rightarrow> (int \<times> int) list \<Rightarrow> (int list \<times> int list) option \<Rightarrow> error + locale_object" where
  "create_locale_extent UNDEFINED t table ilr locale_extent globale h kwargs =
     bind_e (get_rank UNDEFINED table ilr) (\<lambda>r.
       case locale_extent of
         GivenGlobale g \<Rightarrow>
           construct_locale t r (int ilr) globale None h
             (Some (ext_beg g)) (Some (ext_end g)) kwargs
       | StartStop start stop \<Rightarrow>
           construct_locale t r (int ilr) globale None h
             (Some start) (Some stop) kwargs
       | Slices sl \<Rightarrow>
           construct_locale t r (int ilr) globale (Some sl) h None None kwargs
       | Shape stop \<Rightarrow>
           (if stop = []
            then construct_locale t r (int ilr) globale (Some []) h None None kwargs
            else Inl ValueError)
       | Unusable \<Rightarrow> Inl ValueError)"

text \<open>
  The loop of \<open>Distribution.__init__\<close> over \<open>range(len(locale_extents))\<close>. The method
  \<open>create_locale_extent\<close> is the one of the object's class: \<open>kwargs_of\<close> gives the keyword
  arguments that the class adds for a rank (\<open>Distribution\<close> adds none, \<open>BlockPartition\<close>
  adds \<open>cart_coord\<close> and \<open>cart_shape\<close>, and fails with \<open>KeyError\<close> for a rank without
  coordinate).
\<close>

fun create_locale_extents ::
  "int \<Rightarrow> extent_type \<Rightarrow> int list option \<Rightarrow> HaloIndexingExtent \<Rightarrow> (int \<times> int) list
     \<Rightarrow> (nat \<Rightarrow> error + (int list \<times> int list) option) \<Rightarrow> nat \<Rightarrow> extent_spec list
     \<Rightarrow> error + locale_object list" where
  "create_locale_extents UNDEFINED t table globale h kwargs_of i [] = Inr []"
| "create_locale_extents UNDEFINED t table globale h kwargs_of i (le # les) =
     (case kwargs_of i of Inl err \<Rightarrow> Inl err | Inr kwargs \<Rightarrow>
     (case create_locale_extent UNDEFINED t table i le globale h kwargs of
        Inl err \<Rightarrow> Inl err
      | Inr obj \<Rightarrow>
          (case create_locale_extents UNDEFINED t table globale h kwargs_of (Suc i) les of
             Inl err \<Rightarrow> Inl err
           | Inr objs \<Rightarrow> Inr (obj # objs))))"

definition Distribution_init ::
  "int \<Rightarrow> extent_spec \<Rightarrow> extent_spec list \<Rightarrow> (int \<times> int) list \<Rightarrow> extent_type
     \<Rightarrow> int list option \<Rightarrow> (nat \<Rightarrow> error + (int list \<times> int list) option)
     \<Rightarrow> error + Distribution" where
  "Distribution_init UNDEFINED globale les h t table kwargs_of =
     bind_e (create_globale_extent globale) (\<lambda>g.
     bind_e (create_locale_extents UNDEFINED t table g h kwargs_of 0 les) (\<lambda>objs.
       Inr \<lparr>locale_extent_type = t, inter_locale_rank_to_rank = table,
            globale_extent = g, distribution_halo = h, locale_extents = objs\<rparr>))"

text \<open>The keyword arguments of \<open>Distribution\<close> and of \<open>BlockPartition\<close>.\<close>

definition no_kwargs :: "nat \<Rightarrow> error + (int list \<times> int list) option" where
  "no_kwargs i = Inr None"

text \<open>
  \<open>BlockPartition\<close> inverts the dictionary \<open>cart_coord_to_cart_rank\<close> by a comprehension;
  of two coordinates with the same rank the later one is kept.
\<close>

definition cart_kwargs ::
  "(int list \<times> int) list \<Rightarrow> int list \<Rightarrow> nat \<Rightarrow> error + (int list \<times> int list) option" where
  "cart_kwargs cart_coord_to_cart_rank dims i =
     (case map_of (rev (map (\<lambda>(c, r). (r, c)) cart_coord_to_cart_rank)) (int i) of
        None \<Rightarrow> Inl KeyError
      | Some c \<Rightarrow> Inr (Some (c, dims)))"

section \<open>Auxiliary notions for the intersection split\<close>

text \<open>
  What one pass of the loop of \<open>calc_intersection_split\<close> does to the current box \<open>c\<close>
  on axis \<open>a\<close>, when the intersection \<open>i\<close> lies inside \<open>c\<close> on that axis: the box is
  narrowed to the interval of \<open>i\<close>, and the parts of \<open>c\<close> below and above that interval
  are emitted, each only when it is not empty.
\<close>

definition narrow :: "IndexingExtent \<Rightarrow> IndexingExtent \<Rightarrow> nat \<Rightarrow> IndexingExtent" where
  "narrow c i a =
     \<lparr>ext_beg = (ext_beg c)[a := ext_beg i ! a], ext_end = (ext_end c)[a := ext_end i ! a]\<rparr>"

definition emitted :: "IndexingExtent \<Rightarrow> IndexingExtent \<Rightarrow> nat \<Rightarrow> IndexingExtent list" where
  "emitted c i a =
     (if ext_beg c ! a < ext_beg i ! a
      then [\<lparr>ext_beg = ext_beg c, ext_end = (ext_end c)[a := ext_beg i ! a]\<rparr>] else []) @
     (if ext_end i ! a < ext_end c ! a
      then [\<lparr>ext_beg = (ext_beg c)[a := ext_end i ! a], ext_end = ext_end c\<rparr>] else [])"

fun final_of :: "IndexingExtent \<Rightarrow> IndexingExtent \<Rightarrow> nat list \<Rightarrow> IndexingExtent" where
  "final_of c i [] = c"
| "final_of c i (a # as) = final_of (narrow c i a) i as"

fun leftovers_of :: "IndexingExtent \<Rightarrow> IndexingExtent \<Rightarrow> nat list \<Rightarrow> IndexingExtent list" where
  "leftovers_of c i [] = []"
| "leftovers_of c i (a # as) = emitted c i a @ leftovers_of (narrow c i a) i as"

definition inside :: "IndexingExtent \<Rightarrow> IndexingExtent \<Rightarrow> nat \<Rightarrow> bool" where
  "inside c i a \<longleftrightarrow>
     a < length (ext_beg c) \<and> length (ext_end c) = length (ext_beg c) \<and>
     ext_beg c ! a \<le> ext_beg i ! a \<and> ext_beg i ! a < ext_end i ! a \<and>
     ext_end i ! a \<le> ext_end c ! a \<and>
     a < length (ext_beg i) \<and> a < length (ext_end i)"

section \<open>Auxiliary notions for the halo-update planner\<close>

definition wf_halo :: "nat \<Rightarrow> 'a HaloIndexingExtent_scheme \<Rightarrow> bool" where
  "wf_halo n e \<longleftrightarrow> length (ext_beg e) = n \<and> length (ext_end e) = n \<and> length (halo e) = n"

definition slab_beg :: "'a HaloIndexingExtent_scheme \<Rightarrow> nat \<Rightarrow> side \<Rightarrow> nat \<Rightarrow> int" where
  "slab_beg e a dir j =
     (if j = a \<and> dir = HI then ext_end e ! a else ext_beg e ! j - fst (halo e ! j))"

definition slab_end :: "'a HaloIndexingExtent_scheme \<Rightarrow> nat \<Rightarrow> side \<Rightarrow> nat \<Rightarrow> int" where
  "slab_end e a dir j =
     (if j = a \<and> dir = LO then ext_beg e ! a else ext_end e ! j + snd (halo e ! j))"

definition nh_beg :: "'a HaloIndexingExtent_scheme \<Rightarrow> nat \<Rightarrow> nat \<Rightarrow> int" where
  "nh_beg e a j = (if j = a then ext_beg e ! a else ext_beg e ! j - fst (halo e ! j))"

definition nh_end :: "'a HaloIndexingExtent_scheme \<Rightarrow> nat \<Rightarrow> nat \<Rightarrow> int" where
  "nh_end e a j = (if j = a then ext_end e ! a else ext_end e ! j + snd (halo e ! j))"

definition planned_updates ::
  "int \<Rightarrow> (int \<times> DecompExtent) list \<Rightarrow> nat \<Rightarrow> side \<Rightarrow> error + SingleExtentUpdate list" where
  "planned_updates rk rank_to_extents_dict a dir =
     bind_e (initialise rk rank_to_extents_dict) (\<lambda>hu. get_updates hu a dir)"

text \<open>
  A record comes from the walk for \<open>dst\<close> when it was made at a step \<open>i\<close> of the walk
  along some axis \<open>a\<close> on some side \<open>dir\<close>: its source is the neighbour at that step and
  its overlap is the one computed for that axis and side.
\<close>

definition from_walk ::
  "DecompExtent \<Rightarrow> (int list \<rightharpoonup> DecompExtent) \<Rightarrow> SingleExtentUpdate \<Rightarrow> bool" where
  "from_walk dst d u \<longleftrightarrow>
     upd_dst_extent u = dst \<and>
     (\<exists>a dir i js. a < ndim dst \<and> i_range dst a dir = Inr js \<and> i \<in> set js \<and>
        neighbour d dst a i = Inr (upd_src_extent u) \<and>
        calc_halo_intersection dst (upd_src_extent u) a dir = Inr (Some (update_extent u)))"

definition plan_inv :: "(int list \<rightharpoonup> DecompExtent) \<Rightarrow> HalosUpdate \<Rightarrow> bool" where
  "plan_inv d hu \<longleftrightarrow> (\<forall>b. \<forall>u\<in>set (bucket_heap hu b). from_walk (dst_extent hu) d u)"

text \<open>
  The numbers of an extent with halo are representable: the entries of \<open>_beg\<close>, \<open>_end\<close>
  and \<open>_halo\<close>, and the bounds with halo \<open>start_h\<close> and \<open>stop_h\<close> computed from them. For
  such an extent \<open>start_h\<close>, \<open>stop_h\<close>, \<open>halo_slab_extent\<close> and \<open>no_halo_extent\<close> of the
  model are those of the code.
\<close>

definition in_int64 :: "nat \<Rightarrow> 'a HaloIndexingExtent_scheme \<Rightarrow> bool" where
  "in_int64 n e \<longleftrightarrow>
     (\<forall>j\<in>set [0..<n]. int64 (ext_beg e ! j) \<and> int64 (ext_end e ! j) \<and>
        int64 (fst (halo e ! j)) \<and> int64 (snd (halo e ! j)) \<and>
        int64 (ext_beg e ! j - fst (halo e ! j)) \<and> int64 (ext_end e ! j + snd (halo e ! j)))"

definition valid_tile :: "nat \<Rightarrow> 'a HaloIndexingExtent_scheme \<Rightarrow> bool" where
  "valid_tile n e \<longleftrightarrow> wf_halo n e \<and> in_int64 n e \<and>
     (\<forall>j\<in>set [0..<n]. ext_beg e ! j \<le> ext_end e ! j \<and> 0 \<le> fst (halo e ! j) \<and> 0 \<le> snd (halo e ! j))"

text \<open>
  Example partitions. \<open>grid2x2\<close> is the array of shape \<open>(4, 4)\<close> cut into \<open>2 x 2\<close> tiles
  with a requested halo of one element on every side; \<open>line5\<close> is the array of shape
  \<open>(3,)\<close> cut into five tiles (sizes 1, 1, 1, 0, 0) with a requested halo of two;
  \<open>line4\<close> is the array of shape \<open>(12,)\<close> cut into four tiles of three elements with a
  requested halo of two. The halos listed are the ones that \<open>DecompExtent_init\<close> computes
  from the requested ones.
\<close>

definition grid_tile :: "int \<Rightarrow> int list \<Rightarrow> (int \<times> int) list \<Rightarrow> (int \<times> int) list \<Rightarrow> DecompExtent" where
  "grid_tile r c sl h = \<lparr>ext_beg = map fst sl, ext_end = map snd sl, halo = h, cart_rank = r,
      cart_coord = c, cart_shape = [2, 2], array_shape = [4, 4]\<rparr>"

definition grid2x2 :: "(int \<times> DecompExtent) list" where
  "grid2x2 = [(0, grid_tile 0 [0, 0] [(0, 2), (0, 2)] [(0, 1), (0, 1)]),
              (1, grid_tile 1 [0, 1] [(0, 2), (2, 4)] [(0, 1), (1, 0)]),
              (2, grid_tile 2 [1, 0] [(2, 4), (0, 2)] [(1, 0), (0, 1)]),
              (3, grid_tile 3 [1, 1] [(2, 4), (2, 4)] [(1, 0), (1, 0)])]"

text \<open>
  The two update records that the planner produces for the tile at coordinate \<open>(0, 0)\<close> of
  \<open>grid2x2\<close>: one on the high side of axis 0, one on the high side of axis 1.
\<close>

definition grid_update_axis0 :: SingleExtentUpdate where
  "grid_update_axis0 =
     \<lparr>upd_dst_extent = grid_tile 0 [0, 0] [(0, 2), (0, 2)] [(0, 1), (0, 1)],
      upd_src_extent = grid_tile 2 [1, 0] [(2, 4), (0, 2)] [(1, 0), (0, 1)],
      update_extent = \<lparr>ext_beg = [2, 0], ext_end = [3, 3]\<rparr>\<rparr>"

definition grid_update_axis1 :: SingleExtentUpdate where
  "grid_update_axis1 =
     \<lparr>upd_dst_extent = grid_tile 0 [0, 0] [(0, 2), (0, 2)] [(0, 1), (0, 1)],
      upd_src_extent = grid_tile 1 [0, 1] [(0, 2), (2, 4)] [(0, 1), (1, 0)],
      update_extent = \<lparr>ext_beg = [0, 2], ext_end = [3, 3]\<rparr>\<rparr>"

definition line_tile :: "int \<Rightarrow> int \<Rightarrow> int \<Rightarrow> (int \<times> int) \<Rightarrow> (int \<times> int) \<Rightarrow> DecompExtent" where
  "line_tile cs as k sl h = \<lparr>ext_beg = [fst sl], ext_end = [snd sl], halo = [h], cart_rank = k,
      cart_coord = [k], cart_shape = [cs], array_shape = [as]\<rparr>"

definition line5 :: "(int \<times> DecompExtent) list" where
  "line5 = [(0, line_tile 5 3 0 (0, 1) (0, 2)),
            (1, line_tile 5 3 1 (1, 2) (1, 1)),
            (2, line_tile 5 3 2 (2, 3) (2, 0)),
            (3, line_tile 5 3 3 (3, 3) (2, 0)),
            (4, line_tile 5 3 4 (3, 3) (2, 0))]"


definition block_line ::
  "(int list \<rightharpoonup> DecompExtent) \<Rightarrow> DecompExtent \<Rightarrow> nat \<Rightarrow> int list \<Rightarrow> bool" where
  "block_line d dst a cuts \<longleftrightarrow>
     a < ndim dst \<and> length (cart_coord dst) = ndim dst \<and> length (cart_shape dst) = ndim dst \<and>
     0 \<le> cart_coord dst ! a \<and> cart_coord dst ! a < cart_shape dst ! a \<and>
     int (length cuts) = cart_shape dst ! a + 1 \<and> sorted cuts \<and>
     d (cart_coord dst) = Some dst \<and>
     (\<forall>k\<in>set [0..cart_shape dst ! a - 1].
        case d ((cart_coord dst)[a := k]) of
          None \<Rightarrow> False
        | Some s \<Rightarrow>
            wf_halo (ndim dst) s \<and>
            ext_beg s ! a = cuts ! nat k \<and> ext_end s ! a = cuts ! nat (k + 1) \<and>
            (\<forall>j\<in>set [0..<ndim dst]. j \<noteq> a \<longrightarrow>
               ext_beg s ! j = ext_beg dst ! j \<and> ext_end s ! j = ext_end dst ! j \<and>
               halo s ! j = halo dst ! j))"


definition step_record ::
  "DecompExtent \<Rightarrow> (int list \<rightharpoonup> DecompExtent) \<Rightarrow> nat \<Rightarrow> side \<Rightarrow> int \<Rightarrow> SingleExtentUpdate \<Rightarrow> bool" where
  "step_record dst d a dir i u \<longleftrightarrow>
     upd_dst_extent u = dst \<and> neighbour d dst a i = Inr (upd_src_extent u) \<and>
     calc_halo_intersection dst (upd_src_extent u) a dir = Inr (Some (update_extent u))"

section \<open>Basic facts about the primitives\<close>

lemma bind_e_Inr [simp]: "bind_e (Inr x) f = f x"
  by (simp add: bind_e_def)

lemma bind_e_Inl [simp]: "bind_e (Inl e) f = Inl e"
  by (simp add: bind_e_def)

lemma np_binop_same_length:
  "length xs = length ys \<Longrightarrow> np_binop f xs ys = Inr (map2 f xs ys)"
  by (simp add: np_binop_def)

lemma list_ex_map2_ge:
  assumes "length b = length e"
  shows "list_ex (\<lambda>t. t) (map2 (\<lambda>x y. x \<ge> y) b e) \<longleftrightarrow> (\<exists>i<length b. b ! i \<ge> (e ! i :: int))"
  using assms by (auto simp: list_ex_iff set_zip)

lemma calc_intersection_wf:
  assumes "length (ext_beg other) = length (ext_beg self)"
    and "length (ext_end self) = length (ext_beg self)"
    and "length (ext_end other) = length (ext_beg self)"
  shows "calc_intersection self other =
     Inr (if \<exists>i<length (ext_beg self).
               max (ext_beg self ! i) (ext_beg other ! i) \<ge> min (ext_end self ! i) (ext_end other ! i)
          then None
          else Some \<lparr>ext_beg = map2 max (ext_beg self) (ext_beg other),
                     ext_end = map2 min (ext_end self) (ext_end other)\<rparr>)"
  using assms
  by (auto simp add: calc_intersection_def np_binop_same_length list_ex_map2_ge)

section \<open>The intersection split tiles the extent\<close>

lemma split_loop_step:
  assumes "inside c i a"
  shows "split_loop i (a # as) [c] ls = split_loop i as [narrow c i a] (ls @ emitted c i a)"
proof -
  obtain bs es where c: "c = \<lparr>ext_beg = bs, ext_end = es\<rparr>" by (cases c) auto
  from assms c have a: "a < length bs" "length es = length bs" "a < length (ext_beg i)" "a < length (ext_end i)"
    and o: "bs ! a \<le> ext_beg i ! a" "ext_beg i ! a < ext_end i ! a" "ext_end i ! a \<le> es ! a"
    by (simp_all add: inside_def)
  consider (eq_eq) "bs ! a = ext_beg i ! a" "ext_end i ! a = es ! a"
    | (eq_lt) "bs ! a = ext_beg i ! a" "ext_end i ! a < es ! a"
    | (lt_eq) "bs ! a < ext_beg i ! a" "ext_end i ! a = es ! a"
    | (lt_lt) "bs ! a < ext_beg i ! a" "ext_end i ! a < es ! a"
    using o by linarith
  then show ?thesis
  proof cases
    case eq_eq
    have "bs[a := ext_beg i ! a] = bs" "es[a := ext_end i ! a] = es"
      using eq_eq by (metis list_update_id)+
    then show ?thesis using a o eq_eq
      by (simp add: c split_def np_get_def narrow_def emitted_def)
  next
    case eq_lt
    have "bs[a := ext_beg i ! a] = bs"
      using eq_lt by (metis list_update_id)
    then show ?thesis using a o eq_lt
      by (simp add: c split_def np_get_def narrow_def emitted_def)
  next
    case lt_eq
    have "es[a := ext_end i ! a] = es"
      using lt_eq by (metis list_update_id)
    then show ?thesis using a o lt_eq
      by (simp add: c split_def np_get_def narrow_def emitted_def)
  next
    case lt_lt
    then show ?thesis using a o
      by (simp add: c split_def np_get_def narrow_def emitted_def)
  qed
qed

lemma inside_narrow:
  "inside c i b \<Longrightarrow> a \<noteq> b \<Longrightarrow> inside (narrow c i a) i b"
  by (simp add: inside_def narrow_def)

lemma split_loop_eval:
  "\<forall>a\<in>set as. inside c i a \<Longrightarrow> distinct as \<Longrightarrow>
     split_loop i as [c] ls = Inr ([final_of c i as], ls @ leftovers_of c i as)"
proof (induction as arbitrary: c ls)
  case Nil
  then show ?case by simp
next
  case (Cons a as)
  have "\<forall>b\<in>set as. inside (narrow c i a) i b"
    using Cons.prems by (auto intro: inside_narrow)
  moreover have "distinct as" using Cons.prems by simp
  ultimately have "split_loop i as [narrow c i a] (ls @ emitted c i a) =
      Inr ([final_of (narrow c i a) i as], (ls @ emitted c i a) @ leftovers_of (narrow c i a) i as)"
    by (rule Cons.IH)
  moreover have "inside c i a" using Cons.prems by simp
  ultimately show ?case
    by (simp add: split_loop_step del: split_loop.simps)
qed

lemma in_idx_axis:
  assumes "a < length bs"
  shows "p \<in> idx \<lparr>ext_beg = bs, ext_end = es\<rparr> \<longleftrightarrow>
     length p = length bs \<and> bs ! a \<le> p ! a \<and> p ! a < es ! a \<and>
     (\<forall>j<length bs. j \<noteq> a \<longrightarrow> bs ! j \<le> p ! j \<and> p ! j < es ! j)"
  using assms by (auto simp: idx_def)

lemma in_idx_upd_end:
  assumes "a < length bs" "length es = length bs"
  shows "p \<in> idx \<lparr>ext_beg = bs, ext_end = es[a := y]\<rparr> \<longleftrightarrow>
     length p = length bs \<and> bs ! a \<le> p ! a \<and> p ! a < y \<and>
     (\<forall>j<length bs. j \<noteq> a \<longrightarrow> bs ! j \<le> p ! j \<and> p ! j < es ! j)"
  using assms by (simp add: in_idx_axis [of a])

lemma in_idx_upd_beg:
  assumes "a < length bs" "length es = length bs"
  shows "p \<in> idx \<lparr>ext_beg = bs[a := x], ext_end = es\<rparr> \<longleftrightarrow>
     length p = length bs \<and> x \<le> p ! a \<and> p ! a < es ! a \<and>
     (\<forall>j<length bs. j \<noteq> a \<longrightarrow> bs ! j \<le> p ! j \<and> p ! j < es ! j)"
  using assms by (simp add: in_idx_axis [of a])

lemma in_idx_narrow:
  assumes "a < length (ext_beg c)" "length (ext_end c) = length (ext_beg c)"
  shows "p \<in> idx (narrow c i a) \<longleftrightarrow>
     length p = length (ext_beg c) \<and> ext_beg i ! a \<le> p ! a \<and> p ! a < ext_end i ! a \<and>
     (\<forall>j<length (ext_beg c). j \<noteq> a \<longrightarrow> ext_beg c ! j \<le> p ! j \<and> p ! j < ext_end c ! j)"
  using assms by (simp add: narrow_def in_idx_axis [of a])

lemma in_idx_whole:
  assumes "a < length (ext_beg c)"
  shows "p \<in> idx (c :: IndexingExtent) \<longleftrightarrow>
     length p = length (ext_beg c) \<and> ext_beg c ! a \<le> p ! a \<and> p ! a < ext_end c ! a \<and>
     (\<forall>j<length (ext_beg c). j \<noteq> a \<longrightarrow> ext_beg c ! j \<le> p ! j \<and> p ! j < ext_end c ! j)"
  using assms by (auto simp: idx_def)

lemma in_emitted:
  assumes "inside c i a"
  shows "(\<exists>l\<in>set (emitted c i a). p \<in> idx l) \<longleftrightarrow>
     p \<in> idx c \<and> (p ! a < ext_beg i ! a \<or> ext_end i ! a \<le> p ! a)"
proof -
  from assms have a: "a < length (ext_beg c)" "length (ext_end c) = length (ext_beg c)"
    and o: "ext_beg c ! a \<le> ext_beg i ! a" "ext_beg i ! a < ext_end i ! a"
           "ext_end i ! a \<le> ext_end c ! a"
    by (simp_all add: inside_def)
  show ?thesis
    using o unfolding emitted_def in_idx_whole [OF a(1)]
    by (auto simp: in_idx_upd_end [OF a] in_idx_upd_beg [OF a])
qed

lemma idx_step:
  assumes "inside c i a"
  shows "p \<in> idx c \<longleftrightarrow> p \<in> idx (narrow c i a) \<or> (\<exists>l\<in>set (emitted c i a). p \<in> idx l)"
    and "\<not> (p \<in> idx (narrow c i a) \<and> (\<exists>l\<in>set (emitted c i a). p \<in> idx l))"
proof -
  from assms have a: "a < length (ext_beg c)" "length (ext_end c) = length (ext_beg c)"
    and o: "ext_beg c ! a \<le> ext_beg i ! a" "ext_beg i ! a < ext_end i ! a"
           "ext_end i ! a \<le> ext_end c ! a"
    by (simp_all add: inside_def)
  show "p \<in> idx c \<longleftrightarrow> p \<in> idx (narrow c i a) \<or> (\<exists>l\<in>set (emitted c i a). p \<in> idx l)"
    unfolding in_emitted [OF assms] in_idx_narrow [OF a] in_idx_whole [OF a(1)]
    using o by auto
  show "\<not> (p \<in> idx (narrow c i a) \<and> (\<exists>l\<in>set (emitted c i a). p \<in> idx l))"
    unfolding in_emitted [OF assms] in_idx_narrow [OF a] in_idx_whole [OF a(1)]
    using o by auto
qed

lemma emitted_disjoint:
  assumes "inside c i a"
  shows "sorted_wrt (\<lambda>x y. idx x \<inter> idx y = {}) (emitted c i a)"
proof -
  from assms have a: "a < length (ext_beg c)" "length (ext_end c) = length (ext_beg c)"
    and o: "ext_beg c ! a \<le> ext_beg i ! a" "ext_beg i ! a < ext_end i ! a"
           "ext_end i ! a \<le> ext_end c ! a"
    by (simp_all add: inside_def)
  have "idx \<lparr>ext_beg = ext_beg c, ext_end = (ext_end c)[a := ext_beg i ! a]\<rparr> \<inter>
        idx \<lparr>ext_beg = (ext_beg c)[a := ext_end i ! a], ext_end = ext_end c\<rparr> = {}"
    using o by (auto simp: in_idx_upd_end [OF a] in_idx_upd_beg [OF a])
  then show ?thesis by (simp add: emitted_def)
qed

lemma split_tiling:
  assumes "\<forall>a\<in>set as. inside c i a" "distinct as"
  shows "(\<forall>p. p \<in> idx c \<longleftrightarrow>
            p \<in> idx (final_of c i as) \<or> (\<exists>l\<in>set (leftovers_of c i as). p \<in> idx l))
       \<and> (\<forall>l\<in>set (leftovers_of c i as). idx l \<inter> idx (final_of c i as) = {})
       \<and> sorted_wrt (\<lambda>x y. idx x \<inter> idx y = {}) (leftovers_of c i as)"
  using assms
proof (induction as arbitrary: c)
  case Nil
  then show ?case by simp
next
  case (Cons a as)
  let ?n = "narrow c i a"
  have ins: "inside c i a" using Cons.prems by simp
  have "\<forall>b\<in>set as. inside ?n i b"
    using Cons.prems by (auto intro: inside_narrow)
  moreover have "distinct as" using Cons.prems by simp
  ultimately have IH:
    "\<forall>p. p \<in> idx ?n \<longleftrightarrow>
            p \<in> idx (final_of ?n i as) \<or> (\<exists>l\<in>set (leftovers_of ?n i as). p \<in> idx l)"
    "\<forall>l\<in>set (leftovers_of ?n i as). idx l \<inter> idx (final_of ?n i as) = {}"
    "sorted_wrt (\<lambda>x y. idx x \<inter> idx y = {}) (leftovers_of ?n i as)"
    using Cons.IH [of ?n] by blast+
  have cover: "\<forall>p. p \<in> idx c \<longleftrightarrow>
      p \<in> idx (final_of c i (a # as)) \<or> (\<exists>l\<in>set (leftovers_of c i (a # as)). p \<in> idx l)"
    using idx_step(1) [OF ins] IH(1) by auto
  have em_n: "\<forall>l\<in>set (emitted c i a). idx l \<inter> idx ?n = {}"
    using idx_step(2) [OF ins] by blast
  have sub_fin: "idx (final_of ?n i as) \<subseteq> idx ?n"
    using IH(1) by blast
  have sub_left: "\<forall>l\<in>set (leftovers_of ?n i as). idx l \<subseteq> idx ?n"
    using IH(1) by blast
  have fin: "\<forall>l\<in>set (leftovers_of c i (a # as)). idx l \<inter> idx (final_of c i (a # as)) = {}"
    using em_n sub_fin IH(2) by auto
  have "\<forall>x\<in>set (emitted c i a). \<forall>y\<in>set (leftovers_of ?n i as). idx x \<inter> idx y = {}"
    using em_n sub_left by blast
  then have pw: "sorted_wrt (\<lambda>x y. idx x \<inter> idx y = {}) (leftovers_of c i (a # as))"
    using emitted_disjoint [OF ins] IH(3) by (simp add: sorted_wrt_append)
  from cover fin pw show ?case by blast
qed

lemma final_of_length:
  "length (ext_beg (final_of c i as)) = length (ext_beg c) \<and>
   length (ext_end (final_of c i as)) = length (ext_end c)"
  by (induction as arbitrary: c) (simp_all add: narrow_def)

lemma final_of_nth:
  "j < length (ext_beg c) \<Longrightarrow> length (ext_end c) = length (ext_beg c) \<Longrightarrow>
     ext_beg (final_of c i as) ! j = (if j \<in> set as then ext_beg i ! j else ext_beg c ! j) \<and>
     ext_end (final_of c i as) ! j = (if j \<in> set as then ext_end i ! j else ext_end c ! j)"
proof (induction as arbitrary: c)
  case Nil
  then show ?case by simp
next
  case (Cons a as)
  have "j < length (ext_beg (narrow c i a))" "length (ext_end (narrow c i a)) = length (ext_beg (narrow c i a))"
    using Cons.prems by (simp_all add: narrow_def)
  from Cons.IH [OF this] show ?case
    using Cons.prems by (auto simp: narrow_def nth_list_update)
qed

lemma final_of_all:
  assumes "length (ext_end c) = length (ext_beg c)"
    and "length (ext_beg i) = length (ext_beg c)" "length (ext_end i) = length (ext_beg c)"
  shows "final_of c i [0..<length (ext_beg c)] = i"
proof -
  let ?f = "final_of c i [0..<length (ext_beg c)]"
  have "ext_beg ?f = ext_beg i"
    using assms final_of_length [of c i "[0..<length (ext_beg c)]"]
    by (intro nth_equalityI) (simp_all add: final_of_nth)
  moreover have "ext_end ?f = ext_end i"
    using assms final_of_length [of c i "[0..<length (ext_beg c)]"]
    by (intro nth_equalityI) (simp_all add: final_of_nth)
  ultimately show ?thesis by simp
qed

lemma intersection_inside:
  assumes len: "length (ext_end self) = length (ext_beg self)"
      "length (ext_beg other) = length (ext_beg self)"
      "length (ext_end other) = length (ext_beg self)"
    and i: "calc_intersection self other = Inr (Some i)"
  shows "\<forall>a<length (ext_beg self). inside self i a"
    and "length (ext_beg i) = length (ext_beg self)"
    and "length (ext_end i) = length (ext_beg self)"
proof -
  have ne: "\<not> (\<exists>k<length (ext_beg self).
               max (ext_beg self ! k) (ext_beg other ! k) \<ge> min (ext_end self ! k) (ext_end other ! k))"
    and eq: "i = \<lparr>ext_beg = map2 max (ext_beg self) (ext_beg other),
                     ext_end = map2 min (ext_end self) (ext_end other)\<rparr>"
    using i unfolding calc_intersection_wf [OF len(2) len(1) len(3)]
    by (auto split: if_splits)
  show "length (ext_beg i) = length (ext_beg self)" "length (ext_end i) = length (ext_beg self)"
    using len by (simp_all add: eq)
  show "\<forall>a<length (ext_beg self). inside self i a"
  proof (intro allI impI)
    fix a assume a: "a < length (ext_beg self)"
    then have "max (ext_beg self ! a) (ext_beg other ! a) < min (ext_end self ! a) (ext_end other ! a)"
      using ne by (simp add: not_le)
    then show "inside self i a"
      using a len by (simp add: inside_def eq)
  qed
qed

section \<open>Facts about halo slabs and the planner\<close>

lemma start_h_wf:
  "wf_halo n e \<Longrightarrow> start_h e = Inr (map (\<lambda>j. ext_beg e ! j - fst (halo e ! j)) [0..<n])"
  by (auto simp: wf_halo_def start_h_def np_binop_same_length intro!: nth_equalityI)

lemma stop_h_wf:
  "wf_halo n e \<Longrightarrow> stop_h e = Inr (map (\<lambda>j. ext_end e ! j + snd (halo e ! j)) [0..<n])"
  by (auto simp: wf_halo_def stop_h_def np_binop_same_length intro!: nth_equalityI)

lemma halo_slab_extent_wf:
  assumes "wf_halo n e" "a < n"
  shows "halo_slab_extent e a dir =
           Inr \<lparr>ext_beg = map (slab_beg e a dir) [0..<n], ext_end = map (slab_end e a dir) [0..<n]\<rparr>"
  using assms
  by (cases dir)
     (auto simp add: halo_slab_extent_def start_h_wf stop_h_wf np_get_def np_set_def halo_at_def
        wf_halo_def slab_beg_def slab_end_def nth_list_update intro!: nth_equalityI)

lemma no_halo_extent_wf:
  assumes "wf_halo n e" "a < n"
  shows "no_halo_extent e (Some a) =
           Inr \<lparr>ext_beg = map (nh_beg e a) [0..<n], ext_end = map (nh_end e a) [0..<n]\<rparr>"
  using assms
  by (auto simp add: no_halo_extent_def start_h_wf stop_h_wf np_get_def np_set_def halo_at_def
        wf_halo_def nh_beg_def nh_end_def nth_list_update intro!: nth_equalityI)

lemma no_halo_extent_None_wf:
  assumes "wf_halo n e"
  shows "no_halo_extent e None =
           Inr \<lparr>ext_beg = map (\<lambda>j. ext_beg e ! j - fst (halo e ! j)) [0..<n],
                ext_end = map (\<lambda>j. ext_end e ! j + snd (halo e ! j)) [0..<n]\<rparr>"
  using assms by (simp add: no_halo_extent_def start_h_wf stop_h_wf)

lemma calc_halo_intersection_wf:
  assumes "wf_halo n dst" "wf_halo n src" "a < n"
  shows "calc_halo_intersection dst src a dir =
     Inr (if \<exists>j<n. max (slab_beg dst a dir j) (nh_beg src a j)
                    \<ge> min (slab_end dst a dir j) (nh_end src a j)
          then None
          else Some \<lparr>ext_beg = map (\<lambda>j. max (slab_beg dst a dir j) (nh_beg src a j)) [0..<n],
                     ext_end = map (\<lambda>j. min (slab_end dst a dir j) (nh_end src a j)) [0..<n]\<rparr>)"
proof -
  have 1: "map2 max (map (slab_beg dst a dir) [0..<n]) (map (nh_beg src a) [0..<n])
         = map (\<lambda>j. max (slab_beg dst a dir j) (nh_beg src a j)) [0..<n]"
    by (auto intro!: nth_equalityI)
  have 2: "map2 min (map (slab_end dst a dir) [0..<n]) (map (nh_end src a) [0..<n])
         = map (\<lambda>j. min (slab_end dst a dir j) (nh_end src a j)) [0..<n]"
    by (auto intro!: nth_equalityI)
  show ?thesis
    unfolding calc_halo_intersection_def halo_slab_extent_wf [OF assms(1,3)]
      no_halo_extent_wf [OF assms(2,3)]
    by (auto simp add: calc_intersection_wf 1 2)
qed

lemma bind_e_eq_Inr:
  "bind_e m f = Inr y \<longleftrightarrow> (\<exists>x. m = Inr x \<and> f x = Inr y)"
  by (cases m) simp_all

lemma bucket_iadd_inv:
  assumes "bucket_iadd hu a dir xs = Inr hu'" "plan_inv d hu"
    and "\<forall>u\<in>set xs. from_walk (dst_extent hu) d u"
  shows "plan_inv d hu' \<and> dst_extent hu' = dst_extent hu"
  using assms
  by (auto simp: bucket_iadd_def bind_e_eq_Inr plan_inv_def split: if_splits)

lemma walk_loop_inv:
  "walk_loop hu d a dir is = Inr hu' \<Longrightarrow> plan_inv d hu \<Longrightarrow> a < ndim (dst_extent hu) \<Longrightarrow>
     i_range (dst_extent hu) a dir = Inr js \<Longrightarrow> set is \<subseteq> set js \<Longrightarrow>
     plan_inv d hu' \<and> dst_extent hu' = dst_extent hu"
proof (induction "is" arbitrary: hu)
  case Nil
  then show ?case by simp
next
  case (Cons i "is")
  from Cons.prems(1) obtain src where src: "neighbour d (dst_extent hu) a i = Inr src"
    by (auto split: sum.splits)
  from Cons.prems(1) src obtain r where r: "calc_halo_intersection (dst_extent hu) src a dir = Inr r"
    by (auto split: sum.splits)
  show ?case
  proof (cases r)
    case None
    with Cons.prems src r show ?thesis by simp
  next
    case (Some h)
    let ?u = "\<lparr>upd_dst_extent = dst_extent hu, upd_src_extent = src, update_extent = h\<rparr>"
    from Cons.prems(1) src r Some obtain hu1 where
      hu1: "bucket_iadd hu a dir (split_extent_for_max_elements ?u) = Inr hu1"
      and rest: "walk_loop hu1 d a dir is = Inr hu'"
      by (auto split: sum.splits)
    have "i \<in> set js" using Cons.prems(5) by simp
    then have "from_walk (dst_extent hu) d ?u"
      using src r Some Cons.prems(3,4) by (auto simp: from_walk_def)
    then have 1: "plan_inv d hu1 \<and> dst_extent hu1 = dst_extent hu"
      using bucket_iadd_inv [OF hu1 Cons.prems(2)]
      by (simp add: split_extent_for_max_elements_def)
    have "plan_inv d hu' \<and> dst_extent hu' = dst_extent hu1"
    proof (rule Cons.IH [OF rest])
      show "plan_inv d hu1" using 1 by simp
      show "a < ndim (dst_extent hu1)" using 1 Cons.prems(3) by simp
      show "i_range (dst_extent hu1) a dir = Inr js" using 1 Cons.prems(4) by simp
      show "set is \<subseteq> set js" using Cons.prems(5) by simp
    qed
    with 1 show ?thesis by simp
  qed
qed

lemma axis_loop_inv:
  "axis_loop hu d dir as = Inr hu' \<Longrightarrow> plan_inv d hu \<Longrightarrow> \<forall>a\<in>set as. a < ndim (dst_extent hu) \<Longrightarrow>
     plan_inv d hu' \<and> dst_extent hu' = dst_extent hu"
proof (induction as arbitrary: hu)
  case Nil
  then show ?case by simp
next
  case (Cons a as)
  from Cons.prems(1) obtain js hu1 where
    js: "i_range (dst_extent hu) a dir = Inr js"
    and w: "walk_loop hu d a dir js = Inr hu1" and rest: "axis_loop hu1 d dir as = Inr hu'"
    by (auto split: sum.splits)
  have 1: "plan_inv d hu1 \<and> dst_extent hu1 = dst_extent hu"
  proof (rule walk_loop_inv [OF w Cons.prems(2) _ js])
    show "a < ndim (dst_extent hu)" using Cons.prems(3) by simp
    show "set js \<subseteq> set js" by simp
  qed
  then show ?case
    using Cons.IH [OF rest] Cons.prems(3) by simp
qed

lemma dir_loop_inv:
  "dir_loop hu d dirs = Inr hu' \<Longrightarrow> plan_inv d hu \<Longrightarrow>
     plan_inv d hu' \<and> dst_extent hu' = dst_extent hu"
proof (induction dirs arbitrary: hu)
  case Nil
  then show ?case by simp
next
  case (Cons dir dirs)
  from Cons.prems(1) obtain hu1 where
    "axis_loop hu d dir [0..<ndim (dst_extent hu)] = Inr hu1" and rest: "dir_loop hu1 d dirs = Inr hu'"
    by (auto split: sum.splits)
  then have 1: "plan_inv d hu1 \<and> dst_extent hu1 = dst_extent hu"
    using axis_loop_inv Cons.prems(2) by simp
  then show ?case
    using Cons.IH [OF rest] by simp
qed

lemma initialise_inv:
  assumes "initialise rk dict = Inr hu"
  shows "map_of dict rk = Some (dst_extent hu) \<and> plan_inv (cart_coord_to_extents_dict dict) hu"
proof -
  from assms obtain dst where dst: "map_of dict rk = Some dst"
    by (auto simp: initialise_def split: option.splits)
  let ?hu0 = "\<lparr>dst_rank = rk, dst_extent = dst, updates = replicate (ndim dst) 0,
             row_heap = (\<lambda>_. [])(0 := [0, 1]), bucket_heap = (\<lambda>_. [])\<rparr>"
  have run: "dir_loop ?hu0 (cart_coord_to_extents_dict dict) [LO, HI] = Inr hu"
    using assms dst by (simp add: initialise_def)
  have "plan_inv (cart_coord_to_extents_dict dict) ?hu0"
    by (simp add: plan_inv_def)
  from dir_loop_inv [OF run this] dst show ?thesis by simp
qed

lemma planned_updates_from_walk:
  assumes "planned_updates rk dict a dir = Inr us" "u \<in> set us"
  shows "\<exists>dst. map_of dict rk = Some dst \<and> from_walk dst (cart_coord_to_extents_dict dict) u"
proof -
  from assms(1) obtain hu where hu: "initialise rk dict = Inr hu"
    and g: "get_updates hu a dir = Inr us"
    by (auto simp: planned_updates_def bind_e_eq_Inr)
  from g obtain b where "us = bucket_heap hu b"
    by (auto simp: get_updates_def bind_e_eq_Inr)
  with initialise_inv [OF hu] assms(2) show ?thesis
    by (auto simp: plan_inv_def)
qed

lemma cart_coord_dict_ran_aux:
  "fold (\<lambda>(r, e) m. m(cart_coord e \<mapsto> e)) xs m0 c = Some e \<Longrightarrow>
     e \<in> snd ` set xs \<or> m0 c = Some e"
proof (induction xs arbitrary: m0)
  case Nil
  then show ?case by simp
next
  case (Cons x xs)
  obtain r e' where x: "x = (r, e')" by (cases x)
  from Cons.prems have "fold (\<lambda>(r, e) m. m(cart_coord e \<mapsto> e)) xs (m0(cart_coord e' \<mapsto> e')) c = Some e"
    unfolding x by (simp del: fun_upd_apply)
  from Cons.IH [OF this] show ?case
    by (auto simp: x split: if_splits)
qed

lemma cart_coord_dict_ran:
  "cart_coord_to_extents_dict dict c = Some e \<Longrightarrow> e \<in> snd ` set dict"
  using cart_coord_dict_ran_aux [of dict Map.empty c e]
  by (simp add: cart_coord_to_extents_dict_def)

lemma neighbour_in_dict:
  "neighbour (cart_coord_to_extents_dict dict) dst a i = Inr src \<Longrightarrow> src \<in> snd ` set dict"
  by (auto simp: neighbour_def bind_e_eq_Inr dest: cart_coord_dict_ran split: option.splits)

lemma in_idx_map:
  "p \<in> idx \<lparr>ext_beg = map f [0..<n], ext_end = map g [0..<n]\<rparr> \<longleftrightarrow>
     length p = n \<and> (\<forall>j<n. f j \<le> p ! j \<and> p ! j < g j)"
  by (auto simp: idx_def)

lemma overlap_points:
  assumes "wf_halo n dst" "wf_halo n src" "a < n"
    and "calc_halo_intersection dst src a dir = Inr (Some ov)"
  shows "p \<in> idx ov \<longleftrightarrow> length p = n \<and>
     (\<forall>j<n. slab_beg dst a dir j \<le> p ! j \<and> p ! j < slab_end dst a dir j \<and>
             nh_beg src a j \<le> p ! j \<and> p ! j < nh_end src a j)"
proof -
  have "ov = \<lparr>ext_beg = map (\<lambda>j. max (slab_beg dst a dir j) (nh_beg src a j)) [0..<n],
              ext_end = map (\<lambda>j. min (slab_end dst a dir j) (nh_end src a j)) [0..<n]\<rparr>"
    using assms(4) unfolding calc_halo_intersection_wf [OF assms(1-3)]
    by (simp split: if_splits)
  then show ?thesis
    by (auto simp: in_idx_map)
qed

lemma overlap_contained:
  assumes dst: "valid_tile n dst" and src: "wf_halo n src" and a: "a < n"
    and ov: "calc_halo_intersection dst src a dir = Inr (Some ov)"
  shows "\<exists>hb nh. no_halo_extent dst None = Inr hb \<and> no_halo_extent src (Some a) = Inr nh \<and>
           idx ov \<subseteq> (idx hb - idx dst) \<inter> idx nh"
proof -
  have wd: "wf_halo n dst" using dst by (simp add: valid_tile_def)
  have va: "ext_beg dst ! a \<le> ext_end dst ! a" "0 \<le> fst (halo dst ! a)" "0 \<le> snd (halo dst ! a)"
    using dst a by (simp_all add: valid_tile_def)
  let ?hb = "\<lparr>ext_beg = map (\<lambda>j. ext_beg dst ! j - fst (halo dst ! j)) [0..<n],
              ext_end = map (\<lambda>j. ext_end dst ! j + snd (halo dst ! j)) [0..<n]\<rparr>"
  let ?nh = "\<lparr>ext_beg = map (nh_beg src a) [0..<n], ext_end = map (nh_end src a) [0..<n]\<rparr>"
  have "idx ov \<subseteq> (idx ?hb - idx dst) \<inter> idx ?nh"
  proof
    fix p assume "p \<in> idx ov"
    then have len: "length p = n"
      and pt: "\<forall>j<n. slab_beg dst a dir j \<le> p ! j \<and> p ! j < slab_end dst a dir j \<and>
             nh_beg src a j \<le> p ! j \<and> p ! j < nh_end src a j"
      using overlap_points [OF wd src a ov] by simp_all
    have "p \<in> idx ?nh"
      using len pt by (simp add: in_idx_map)
    moreover have "p \<in> idx ?hb"
      unfolding in_idx_map
    proof (intro conjI allI impI)
      show "length p = n" by (rule len)
    next
      fix j assume j: "j < n"
      with pt have "slab_beg dst a dir j \<le> p ! j" by simp
      then show "ext_beg dst ! j - fst (halo dst ! j) \<le> p ! j"
        using va by (cases dir) (auto simp: slab_beg_def split: if_splits)
    next
      fix j assume j: "j < n"
      with pt have "p ! j < slab_end dst a dir j" by simp
      then show "p ! j < ext_end dst ! j + snd (halo dst ! j)"
        using va by (cases dir) (auto simp: slab_end_def split: if_splits)
    qed
    moreover have "p \<notin> idx dst"
    proof
      assume "p \<in> idx dst"
      then have "ext_beg dst ! a \<le> p ! a \<and> p ! a < ext_end dst ! a"
        using a wd by (simp add: idx_def wf_halo_def)
      moreover have "slab_beg dst a dir a \<le> p ! a \<and> p ! a < slab_end dst a dir a"
        using pt a by simp
      ultimately show False
        by (cases dir) (simp_all add: slab_beg_def slab_end_def)
    qed
    ultimately show "p \<in> (idx ?hb - idx dst) \<inter> idx ?nh" by simp
  qed
  then show ?thesis
    using no_halo_extent_None_wf [OF wd] no_halo_extent_wf [OF src a] by simp
qed

lemma grid2x2_init:
  "DecompExtent_init 0 [0, 0] [2, 2] [4, 4] [(0, 2), (0, 2)] [(1, 1), (1, 1)] True
     = Inr (grid_tile 0 [0, 0] [(0, 2), (0, 2)] [(0, 1), (0, 1)])"
  "DecompExtent_init 1 [0, 1] [2, 2] [4, 4] [(0, 2), (2, 4)] [(1, 1), (1, 1)] True
     = Inr (grid_tile 1 [0, 1] [(0, 2), (2, 4)] [(0, 1), (1, 0)])"
  "DecompExtent_init 2 [1, 0] [2, 2] [4, 4] [(2, 4), (0, 2)] [(1, 1), (1, 1)] True
     = Inr (grid_tile 2 [1, 0] [(2, 4), (0, 2)] [(1, 0), (0, 1)])"
  "DecompExtent_init 3 [1, 1] [2, 2] [4, 4] [(2, 4), (2, 4)] [(1, 1), (1, 1)] True
     = Inr (grid_tile 3 [1, 1] [(2, 4), (2, 4)] [(1, 0), (1, 0)])"
  by (simp_all add: DecompExtent_init_def grid_tile_def np_binop_def Let_def)

lemma walk_records_steps:
  "walk_records dst d a dir is = Inr rs \<Longrightarrow>
     list_all2 (step_record dst d a dir) (take (length rs) is) rs"
proof (induction "is" arbitrary: rs)
  case Nil
  then show ?case by simp
next
  case (Cons i "is")
  from Cons.prems obtain src where src: "neighbour d dst a i = Inr src"
    by (auto split: sum.splits)
  from Cons.prems src obtain r where r: "calc_halo_intersection dst src a dir = Inr r"
    by (auto split: sum.splits)
  show ?case
  proof (cases r)
    case None
    with Cons.prems src r show ?thesis by simp
  next
    case (Some h)
    from Cons.prems src r Some obtain rs' where
      rest: "walk_records dst d a dir is = Inr rs'"
      and rs: "rs = \<lparr>upd_dst_extent = dst, upd_src_extent = src, update_extent = h\<rparr> # rs'"
      by (auto simp: split_extent_for_max_elements_def split: sum.splits)
    from Cons.IH [OF rest] src r Some show ?thesis
      by (simp add: rs step_record_def)
  qed
qed

lemma sorted_wrt_from_distinct:
  assumes "list_all2 R ks us" "distinct ks"
    and "\<And>k k' u u'. k \<in> set ks \<Longrightarrow> k' \<in> set ks \<Longrightarrow> k \<noteq> k' \<Longrightarrow> R k u \<Longrightarrow> R k' u' \<Longrightarrow> P u u'"
  shows "sorted_wrt P us"
  using assms
proof (induction ks us rule: list_all2_induct)
  case Nil
  then show ?case by simp
next
  case (Cons k ks u us)
  have "sorted_wrt P us"
  proof (rule Cons.IH)
    show "distinct ks" using Cons.prems(1) by simp
  next
    fix k1 k2 u1 u2
    assume "k1 \<in> set ks" "k2 \<in> set ks" "k1 \<noteq> k2" "R k1 u1" "R k2 u2"
    then show "P u1 u2" using Cons.prems(2) [of k1 k2 u1 u2] by simp
  qed
  moreover have "\<forall>u'\<in>set us. P u u'"
  proof
    fix u' assume "u' \<in> set us"
    then obtain m where m: "m < length us" "us ! m = u'"
      by (auto simp: in_set_conv_nth)
    with Cons.hyps(2) have km: "R (ks ! m) u'" "ks ! m \<in> set ks"
      by (auto simp: list_all2_conv_all_nth)
    moreover have "k \<noteq> ks ! m"
      using km(2) Cons.prems(1) by auto
    ultimately show "P u u'"
      using Cons.prems(2) [of k "ks ! m" u u'] Cons.hyps(1) by simp
  qed
  ultimately show ?case by simp
qed

lemma block_line_tile:
  assumes bl: "block_line d dst a cuts"
    and nb: "neighbour d dst a i = Inr src"
    and rng: "0 \<le> cart_coord dst ! a + i" "cart_coord dst ! a + i < cart_shape dst ! a"
  shows "wf_halo (ndim dst) src"
    and "ext_beg src ! a = cuts ! nat (cart_coord dst ! a + i)"
    and "ext_end src ! a = cuts ! nat (cart_coord dst ! a + i + 1)"
    and "\<forall>j<ndim dst. j \<noteq> a \<longrightarrow>
               ext_beg src ! j = ext_beg dst ! j \<and> ext_end src ! j = ext_end dst ! j \<and>
               halo src ! j = halo dst ! j"
proof -
  let ?k = "cart_coord dst ! a + i"
  have a: "a < length (cart_coord dst)" using bl by (simp add: block_line_def)
  have look: "d ((cart_coord dst)[a := ?k]) = Some src"
    using nb a by (auto simp: neighbour_def np_get_def np_set_def split: option.splits)
  have "?k \<in> set [0..cart_shape dst ! a - 1]" using rng by simp
  then have "case d ((cart_coord dst)[a := ?k]) of
          None \<Rightarrow> False
        | Some s \<Rightarrow>
            wf_halo (ndim dst) s \<and>
            ext_beg s ! a = cuts ! nat ?k \<and> ext_end s ! a = cuts ! nat (?k + 1) \<and>
            (\<forall>j\<in>set [0..<ndim dst]. j \<noteq> a \<longrightarrow>
               ext_beg s ! j = ext_beg dst ! j \<and> ext_end s ! j = ext_end dst ! j \<and>
               halo s ! j = halo dst ! j)"
    using bl unfolding block_line_def by blast
  then have all: "wf_halo (ndim dst) src \<and>
            ext_beg src ! a = cuts ! nat ?k \<and> ext_end src ! a = cuts ! nat (?k + 1) \<and>
            (\<forall>j\<in>set [0..<ndim dst]. j \<noteq> a \<longrightarrow>
               ext_beg src ! j = ext_beg dst ! j \<and> ext_end src ! j = ext_end dst ! j \<and>
               halo src ! j = halo dst ! j)"
    by (simp add: look)
  from all show "wf_halo (ndim dst) src" by simp
  from all show "ext_beg src ! a = cuts ! nat ?k" by simp
  from all show "ext_end src ! a = cuts ! nat (?k + 1)" by simp
  from all show "\<forall>j<ndim dst. j \<noteq> a \<longrightarrow>
               ext_beg src ! j = ext_beg dst ! j \<and> ext_end src ! j = ext_end dst ! j \<and>
               halo src ! j = halo dst ! j" by simp
qed

lemma block_line_self:
  assumes bl: "block_line d dst a cuts"
  shows "neighbour d dst a 0 = Inr dst"
  using bl by (simp add: block_line_def neighbour_def np_get_def np_set_def)

lemma i_range_set:
  assumes "i_range dst a dir = Inr js" "i \<in> set js"
    and "0 \<le> cart_coord dst ! a" "cart_coord dst ! a < cart_shape dst ! a"
  shows "0 \<le> cart_coord dst ! a + i \<and> cart_coord dst ! a + i < cart_shape dst ! a \<and>
         (case dir of LO \<Rightarrow> i < 0 | HI \<Rightarrow> 0 < i)"
  using assms
  by (cases dir) (auto simp: i_range_def bind_e_eq_Inr np_get_def split: if_splits)

lemma i_range_distinct:
  assumes "i_range dst a dir = Inr js"
  shows "distinct js"
  using assms
  by (cases dir) (auto simp: i_range_def bind_e_eq_Inr np_get_def distinct_map inj_on_def split: if_splits)

lemma overlap_axis_interval:
  assumes bl: "block_line d dst a cuts"
    and st: "step_record dst d a dir i u"
    and rng: "0 \<le> cart_coord dst ! a + i" "cart_coord dst ! a + i < cart_shape dst ! a"
    and p: "p \<in> idx (update_extent u)"
  shows "cuts ! nat (cart_coord dst ! a + i) \<le> p ! a \<and>
         p ! a < cuts ! nat (cart_coord dst ! a + i + 1)"
proof -
  let ?src = "upd_src_extent u"
  have nb: "neighbour d dst a i = Inr ?src"
    and ov: "calc_halo_intersection dst ?src a dir = Inr (Some (update_extent u))"
    using st by (simp_all add: step_record_def)
  have a: "a < ndim dst" and c: "0 \<le> cart_coord dst ! a" "cart_coord dst ! a < cart_shape dst ! a"
    using bl by (simp_all add: block_line_def)
  have wd: "wf_halo (ndim dst) dst"
    using block_line_tile(1) [OF bl block_line_self [OF bl]] c by simp
  have ws: "wf_halo (ndim dst) ?src"
    and b: "ext_beg ?src ! a = cuts ! nat (cart_coord dst ! a + i)"
    and e: "ext_end ?src ! a = cuts ! nat (cart_coord dst ! a + i + 1)"
    using block_line_tile(1-3) [OF bl nb rng] by simp_all
  have "nh_beg ?src a a \<le> p ! a \<and> p ! a < nh_end ?src a a"
    using overlap_points [OF wd ws a ov, of p] p a by simp
  then show ?thesis
    by (simp add: nh_beg_def nh_end_def b e)
qed

lemma overlaps_of_distinct_steps:
  assumes bl: "block_line d dst a cuts"
    and u: "step_record dst d a dir i u" and v: "step_record dst d a dir' i' v"
    and ri: "0 \<le> cart_coord dst ! a + i" "cart_coord dst ! a + i < cart_shape dst ! a"
    and ri': "0 \<le> cart_coord dst ! a + i'" "cart_coord dst ! a + i' < cart_shape dst ! a"
    and ne: "i \<noteq> i'"
  shows "idx (update_extent u) \<inter> idx (update_extent v) = {}"
proof (rule ccontr)
  assume "idx (update_extent u) \<inter> idx (update_extent v) \<noteq> {}"
  then obtain p where p: "p \<in> idx (update_extent u)" "p \<in> idx (update_extent v)" by blast
  let ?c = "cart_coord dst ! a"
  have len: "int (length cuts) = cart_shape dst ! a + 1" and so: "sorted cuts"
    using bl by (simp_all add: block_line_def)
  have iu: "cuts ! nat (?c + i) \<le> p ! a" "p ! a < cuts ! nat (?c + i + 1)"
    using overlap_axis_interval [OF bl u ri p(1)] by simp_all
  have iv: "cuts ! nat (?c + i') \<le> p ! a" "p ! a < cuts ! nat (?c + i' + 1)"
    using overlap_axis_interval [OF bl v ri' p(2)] by simp_all
  consider "i < i'" | "i' < i" using ne by linarith
  then show False
  proof cases
    case 1
    have "nat (?c + i + 1) \<le> nat (?c + i')" "nat (?c + i') < length cuts"
      using 1 ri ri' len by linarith+
    then have "cuts ! nat (?c + i + 1) \<le> cuts ! nat (?c + i')"
      using so by (simp add: sorted_nth_mono)
    with iu iv show False by linarith
  next
    case 2
    have "nat (?c + i' + 1) \<le> nat (?c + i)" "nat (?c + i) < length cuts"
      using 2 ri ri' len by linarith+
    then have "cuts ! nat (?c + i' + 1) \<le> cuts ! nat (?c + i)"
      using so by (simp add: sorted_nth_mono)
    with iu iv show False by linarith
  qed
qed

lemma i_range_head:
  assumes "i_range dst a dir = Inr (i1 # rest)"
  shows "i1 = (case dir of LO \<Rightarrow> - 1 | HI \<Rightarrow> 1) \<and>
         (\<forall>i\<in>set rest. case dir of LO \<Rightarrow> i < - 1 | HI \<Rightarrow> 1 < i)"
proof (cases dir)
  case LO
  let ?c = "cart_coord dst ! a"
  from assms LO have m: "map uminus [1..?c] = i1 # rest"
    by (auto simp: i_range_def bind_e_eq_Inr np_get_def split: if_splits)
  then have "1 \<le> ?c" by (cases "1 \<le> ?c") simp_all
  then have "[1..?c] = 1 # [2..?c]" by (simp add: upto_rec1)
  with m have "i1 = - 1" "rest = map uminus [2..?c]" by simp_all
  then show ?thesis using LO by auto
next
  case HI
  let ?m = "cart_shape dst ! a - cart_coord dst ! a - 1"
  from assms HI have m: "[1..?m] = i1 # rest"
    by (auto simp: i_range_def bind_e_eq_Inr np_get_def split: if_splits)
  then have "1 \<le> ?m" by (cases "1 \<le> ?m") simp_all
  then have "[1..?m] = 1 # [2..?m]" by (simp add: upto_rec1)
  with m have "i1 = 1" "rest = [2..?m]" by simp_all
  then show ?thesis using HI by auto
qed



lemma line5_init:
  "DecompExtent_init 0 [0] [5] [3] [(0, 1)] [(2, 2)] True = Inr (line_tile 5 3 0 (0, 1) (0, 2))"
  "DecompExtent_init 1 [1] [5] [3] [(1, 2)] [(2, 2)] True = Inr (line_tile 5 3 1 (1, 2) (1, 1))"
  "DecompExtent_init 2 [2] [5] [3] [(2, 3)] [(2, 2)] True = Inr (line_tile 5 3 2 (2, 3) (2, 0))"
  "DecompExtent_init 3 [3] [5] [3] [(3, 3)] [(2, 2)] True = Inr (line_tile 5 3 3 (3, 3) (2, 0))"
  "DecompExtent_init 4 [4] [5] [3] [(3, 3)] [(2, 2)] True = Inr (line_tile 5 3 4 (3, 3) (2, 0))"
  by (simp_all add: DecompExtent_init_def line_tile_def np_binop_def Let_def)

lemma line4_init:
  "DecompExtent_init 0 [0] [4] [12] [(0, 3)] [(2, 2)] True = Inr (line_tile 4 12 0 (0, 3) (0, 2))"
  "DecompExtent_init 1 [1] [4] [12] [(3, 6)] [(2, 2)] True = Inr (line_tile 4 12 1 (3, 6) (2, 2))"
  "DecompExtent_init 2 [2] [4] [12] [(6, 9)] [(2, 2)] True = Inr (line_tile 4 12 2 (6, 9) (2, 2))"
  "DecompExtent_init 3 [3] [4] [12] [(9, 12)] [(2, 2)] True = Inr (line_tile 4 12 3 (9, 12) (2, 0))"
  by (simp_all add: DecompExtent_init_def line_tile_def np_binop_def Let_def)

lemma walk_loop_records:
  "get_updates hu a dir = Inr xs \<Longrightarrow>
     walk_loop hu d a dir is =
       bind_e (walk_records (dst_extent hu) d a dir is) (\<lambda>rs. bucket_iadd hu a dir rs)"
proof (induction "is" arbitrary: hu xs)
  case Nil
  then show ?case
    by (auto simp: get_updates_def bucket_iadd_def bind_e_eq_Inr)
next
  case (Cons i "is")
  from Cons.prems obtain row b where
    row: "np_get (updates hu) a = Inr row" and b: "np_get (row_heap hu row) (side_index dir) = Inr b"
    by (auto simp: get_updates_def bind_e_eq_Inr)
  show ?case
  proof (cases "neighbour d (dst_extent hu) a i")
    case (Inl e)
    then show ?thesis by simp
  next
    case (Inr src)
    show ?thesis
    proof (cases "calc_halo_intersection (dst_extent hu) src a dir")
      case (Inl e)
      with Inr show ?thesis by simp
    next
      case r: (Inr r)
      show ?thesis
      proof (cases r)
        case None
        with Inr r row b show ?thesis by (simp add: bucket_iadd_def)
      next
        case (Some h)
        let ?u = "\<lparr>upd_dst_extent = dst_extent hu, upd_src_extent = src, update_extent = h\<rparr>"
        let ?hu1 = "hu\<lparr>bucket_heap := (bucket_heap hu)(b := bucket_heap hu b @ [?u])\<rparr>"
        have step: "bucket_iadd hu a dir (split_extent_for_max_elements ?u) = Inr ?hu1"
          using row b by (simp add: bucket_iadd_def split_extent_for_max_elements_def)
        have "get_updates ?hu1 a dir = Inr (bucket_heap hu b @ [?u])"
          using row b by (simp add: get_updates_def)
        from Cons.IH [OF this]
        have IH: "walk_loop ?hu1 d a dir is =
          bind_e (walk_records (dst_extent hu) d a dir is) (\<lambda>rs. bucket_iadd ?hu1 a dir rs)"
          by simp
        have merge: "\<And>rs. bucket_iadd ?hu1 a dir rs = bucket_iadd hu a dir (?u # rs)"
          using row b by (simp add: bucket_iadd_def)
        show ?thesis
          using Inr r Some step IH merge
          by (cases "walk_records (dst_extent hu) d a dir is")
             (simp_all add: split_extent_for_max_elements_def)
      qed
    qed
  qed
qed





section \<open>Facts about the extents of locales\<close>

lemma list_all_map2_eq:
  "length xs = length ys \<Longrightarrow> list_all (\<lambda>t. t) (map2 (\<lambda>x y. x = y) xs ys) \<longleftrightarrow> xs = ys"
proof (induction xs arbitrary: ys)
  case Nil
  then show ?case by simp
next
  case (Cons x xs)
  then show ?case by (cases ys) auto
qed

lemma IndexingExtent_eq_wf:
  assumes "length (ext_beg B) = length (ext_beg A)"
    and "length (ext_end B) = length (ext_end A)"
  shows "IndexingExtent_eq A B = Inr (ext_beg A = ext_beg B \<and> ext_end A = ext_end B)"
proof -
  have b: "np_binop (\<lambda>x y. x = y) (ext_beg A) (ext_beg B) = Inr (map2 (\<lambda>x y. x = y) (ext_beg A) (ext_beg B))"
    using assms(1) by (simp add: np_binop_same_length)
  have e: "np_binop (\<lambda>x y. x = y) (ext_end A) (ext_end B) = Inr (map2 (\<lambda>x y. x = y) (ext_end A) (ext_end B))"
    using assms(2) by (simp add: np_binop_same_length)
  have lb: "list_all (\<lambda>t. t) (map2 (\<lambda>x y. x = y) (ext_beg A) (ext_beg B)) \<longleftrightarrow> ext_beg A = ext_beg B"
    using assms(1) by (simp add: list_all_map2_eq)
  have le: "list_all (\<lambda>t. t) (map2 (\<lambda>x y. x = y) (ext_end A) (ext_end B)) \<longleftrightarrow> ext_end A = ext_end B"
    using assms(2) by (simp add: list_all_map2_eq)
  show ?thesis
    unfolding IndexingExtent_eq_def b e bind_e_Inr lb le by simp
qed

lemma create_locale_extent_ranks:
  assumes "create_locale_extent U t None i le g h kw = Inr obj"
  shows "rank_of obj = U \<and> inter_locale_rank_of obj = int i"
proof -
  have c: "\<And>sl st sp. construct_locale t U (int i) g sl h st sp kw = Inr obj \<Longrightarrow>
             rank_of obj = U \<and> inter_locale_rank_of obj = int i"
    by (auto simp: construct_locale_def LocaleExtent_init_def CartLocaleExtent_init_def
          bind_e_eq_Inr split: extent_type.splits option.splits prod.splits)
  from assms show ?thesis
    by (cases le) (auto simp: create_locale_extent_def get_rank_def dest: c split: if_splits)
qed

lemma create_locale_extents_ranks:
  "create_locale_extents U t None g h kwargs_of k les = Inr objs \<Longrightarrow>
     length objs = length les \<and>
     (\<forall>i<length les. rank_of (objs ! i) = U \<and> inter_locale_rank_of (objs ! i) = int (k + i))"
proof (induction les arbitrary: k objs)
  case Nil
  then show ?case by simp
next
  case (Cons le les)
  from Cons.prems obtain kw obj rest where
    obj: "create_locale_extent U t None k le g h kw = Inr obj"
    and rest: "create_locale_extents U t None g h kwargs_of (Suc k) les = Inr rest"
    and objs: "objs = obj # rest"
    by (auto split: sum.splits)
  from Cons.IH [OF rest] create_locale_extent_ranks [OF obj] show ?case
    by (auto simp: objs nth_Cons split: nat.splits)
qed

lemma map2_nth_form:
  "length xs = n \<Longrightarrow> length ys = n \<Longrightarrow> map2 f xs ys = map (\<lambda>j. f (xs ! j) (ys ! j)) [0..<n]"
  by (auto intro!: nth_equalityI)

lemma HaloSubExtent_init_wf:
  assumes bounds: "extent_bounds slice start stop = Some (b, e)"
    and len: "length b = n" "length e = n" "length h = n" "wf_halo n globale"
  shows "HaloSubExtent_init globale slice h start stop =
     Inr \<lparr>ext_beg = b, ext_end = e,
          halo = map (\<lambda>j. (max 0 (min (b ! j - (ext_beg globale ! j - fst (halo globale ! j))) (fst (h ! j))),
                          max 0 (min (ext_end globale ! j + snd (halo globale ! j) - e ! j) (snd (h ! j)))))
                   [0..<n]\<rparr>"
proof -
  let ?gs = "map (\<lambda>j. ext_beg globale ! j - fst (halo globale ! j)) [0..<n]"
  let ?gt = "map (\<lambda>j. ext_end globale ! j + snd (halo globale ! j)) [0..<n]"
  let ?lo = "map (\<lambda>j. min (b ! j - (ext_beg globale ! j - fst (halo globale ! j))) (fst (h ! j))) [0..<n]"
  let ?hi = "map (\<lambda>j. min (ext_end globale ! j + snd (halo globale ! j) - e ! j) (snd (h ! j))) [0..<n]"
  have s1: "start_h globale = Inr ?gs" by (rule start_h_wf [OF len(4)])
  have s2: "stop_h globale = Inr ?gt" by (rule stop_h_wf [OF len(4)])
  have r1: "np_binop (\<lambda>x y. x - y) b ?gs =
              Inr (map (\<lambda>j. b ! j - (ext_beg globale ! j - fst (halo globale ! j))) [0..<n])"
    using len(1) by (auto simp: np_binop_same_length intro!: nth_equalityI)
  have l1: "np_binop min (map (\<lambda>j. b ! j - (ext_beg globale ! j - fst (halo globale ! j))) [0..<n])
              (halo_column h LO) = Inr ?lo"
    using len(3) by (auto simp: np_binop_same_length intro!: nth_equalityI)
  have r2: "np_binop (\<lambda>x y. x - y) ?gt e =
              Inr (map (\<lambda>j. ext_end globale ! j + snd (halo globale ! j) - e ! j) [0..<n])"
    using len(2) by (auto simp: np_binop_same_length intro!: nth_equalityI)
  have l2: "np_binop min (map (\<lambda>j. ext_end globale ! j + snd (halo globale ! j) - e ! j) [0..<n])
              (halo_column h HI) = Inr ?hi"
    using len(3) by (auto simp: np_binop_same_length intro!: nth_equalityI)
  have z: "map (\<lambda>(l, u). (max 0 l, max 0 u)) (zip ?lo ?hi) =
      map (\<lambda>j. (max 0 (min (b ! j - (ext_beg globale ! j - fst (halo globale ! j))) (fst (h ! j))),
                 max 0 (min (ext_end globale ! j + snd (halo globale ! j) - e ! j) (snd (h ! j)))))
          [0..<n]"
    by (auto intro!: nth_equalityI)
  show ?thesis
    unfolding HaloSubExtent_init_def bounds option.case prod.case s1 s2 bind_e_Inr r1 l1 r2 l2
    using z by simp
qed

section \<open>Claims about \<open>IndexingExtent\<close>\<close>

lemma map2_same: "map2 f xs xs = map (\<lambda>x. f x x) xs"
  by (induction xs) auto

text \<open>
  Claim C8, as stated: for every extent \<open>A\<close>, also an empty one, \<open>A.calc_intersection(A)\<close> is
  an extent equal to \<open>A\<close>. The empty extent \<open>[0, 0)\<close> refutes it: the test
  \<open>start >= stop\<close> holds on its axis, and the result is \<open>None\<close>.
\<close>

theorem intersection_idempotent_empty_counterexample:
  "calc_intersection \<lparr>ext_beg = [0], ext_end = [0]\<rparr> \<lparr>ext_beg = [0], ext_end = [0]\<rparr> = Inr None \<and>
   calc_intersection \<lparr>ext_beg = [0], ext_end = [0]\<rparr> \<lparr>ext_beg = [0], ext_end = [0]\<rparr>
     \<noteq> Inr (Some \<lparr>ext_beg = [0], ext_end = [0]\<rparr>)"
  by (simp add: calc_intersection_def np_binop_def)

text \<open>
  Claim C8, amended: for every extent \<open>A\<close> whose arrays have the same length,
  \<open>A.calc_intersection(A)\<close> is \<open>A\<close> when \<open>A\<close> is not empty (\<open>_beg[i] < _end[i]\<close> on every
  axis), and \<open>None\<close> otherwise.
\<close>

theorem intersection_idempotent_nonempty:
  fixes A :: IndexingExtent
  assumes "length (ext_end A) = length (ext_beg A)"
  shows "calc_intersection A A =
           Inr (if \<forall>i<ndim A. ext_beg A ! i < ext_end A ! i then Some A else None)"
  using assms by (auto simp add: calc_intersection_wf ndim_def map2_same not_less)

text \<open>The amended claim C8 at the extent \<open>[0, 3) x [2, 5)\<close>.\<close>

theorem intersection_idempotent_nonempty_witness:
  "length (ext_end \<lparr>ext_beg = [0, 2], ext_end = [3, 5]\<rparr>) =
     length (ext_beg \<lparr>ext_beg = [0, 2], ext_end = [3, 5]\<rparr>) \<and>
   calc_intersection \<lparr>ext_beg = [0, 2], ext_end = [3, 5]\<rparr> \<lparr>ext_beg = [0, 2], ext_end = [3, 5]\<rparr>
     = Inr (Some \<lparr>ext_beg = [0, 2], ext_end = [3, 5]\<rparr>)"
  using intersection_idempotent_nonempty [of "\<lparr>ext_beg = [0, 2], ext_end = [3, 5]\<rparr>"]
  by (simp add: ndim_def nth_Cons split: nat.splits)

text \<open>
  Claim C2, as stated: when the intersection is absent, \<open>calc_intersection_split\<close> returns
  an empty list of leftovers. For \<open>self = [0, 1)\<close> and \<open>other = [5, 6)\<close> the \<open>else\<close> branch
  appends an extent, and the list returned is not empty.
\<close>

theorem intersection_split_absent_counterexample:
  "calc_intersection_split \<lparr>ext_beg = [0], ext_end = [1]\<rparr> \<lparr>ext_beg = [5], ext_end = [6]\<rparr>
     = Inr ([\<lparr>ext_beg = [5], ext_end = [6]\<rparr>], None) \<and>
   calc_intersection_split \<lparr>ext_beg = [0], ext_end = [1]\<rparr> \<lparr>ext_beg = [5], ext_end = [6]\<rparr>
     \<noteq> Inr ([], None)"
  by (simp add: calc_intersection_split_def calc_intersection_def np_binop_def)

text \<open>
  Claim C2, amended: for extents \<open>self\<close> and \<open>other\<close> of the same dimension whose
  intersection is absent (on some axis the larger start is not below the smaller stop),
  \<open>calc_intersection_split\<close> returns an absent intersection together with a list of
  leftovers that holds exactly one extent.
\<close>

theorem intersection_split_absent:
  assumes "length (ext_end self) = length (ext_beg self)"
    and "length (ext_beg other) = length (ext_beg self)"
    and "length (ext_end other) = length (ext_beg self)"
    and "\<exists>i<length (ext_beg self).
           max (ext_beg self ! i) (ext_beg other ! i) \<ge> min (ext_end self ! i) (ext_end other ! i)"
  shows "\<exists>l. calc_intersection_split self other = Inr ([l], None)"
  using assms by (simp add: calc_intersection_split_def calc_intersection_wf)

text \<open>The amended claim C2 at \<open>self = [0, 4) x [0, 4)\<close> and \<open>other = [2, 6) x [4, 8)\<close>.\<close>

theorem intersection_split_absent_witness:
  "(\<exists>i<length (ext_beg \<lparr>ext_beg = [0, 0], ext_end = [4, 4]\<rparr>).
       max (ext_beg \<lparr>ext_beg = [0, 0], ext_end = [4, 4]\<rparr> ! i)
           (ext_beg \<lparr>ext_beg = [2, 4], ext_end = [6, 8]\<rparr> ! i)
       \<ge> min (ext_end \<lparr>ext_beg = [0, 0], ext_end = [4, 4]\<rparr> ! i)
             (ext_end \<lparr>ext_beg = [2, 4], ext_end = [6, 8]\<rparr> ! i)) \<and>
   (\<exists>l. calc_intersection_split \<lparr>ext_beg = [0, 0], ext_end = [4, 4]\<rparr>
                                 \<lparr>ext_beg = [2, 4], ext_end = [6, 8]\<rparr> = Inr ([l], None))"
proof -
  have h: "\<exists>i<length (ext_beg \<lparr>ext_beg = [0, 0], ext_end = [4, 4]\<rparr>).
       max (ext_beg \<lparr>ext_beg = [0, 0], ext_end = [4, 4]\<rparr> ! i)
           (ext_beg \<lparr>ext_beg = [2, 4], ext_end = [6, 8]\<rparr> ! i)
       \<ge> min (ext_end \<lparr>ext_beg = [0, 0], ext_end = [4, 4]\<rparr> ! i)
             (ext_end \<lparr>ext_beg = [2, 4], ext_end = [6, 8]\<rparr> ! i)"
    by (rule exI [of _ 1]) simp
  from h intersection_split_absent [OF _ _ _ h] show ?thesis by simp
qed

text \<open>
  Claim C3: for extents \<open>self\<close> and \<open>other\<close> of the same dimension whose intersection \<open>i\<close>
  is present, \<open>calc_intersection_split\<close> returns \<open>i\<close> and a list of leftovers that are
  pairwise disjoint, each disjoint from \<open>i\<close>, and whose union with \<open>i\<close> is the index set of
  \<open>self\<close>; and for \<open>self = [0, 10) x [0, 10)\<close>, \<open>other = [3, 7) x [2, 8)\<close> the leftovers
  are \<open>[0, 3) x [0, 10)\<close>, \<open>[7, 10) x [0, 10)\<close>, \<open>[3, 7) x [0, 2)\<close>, \<open>[3, 7) x [8, 10)\<close> in
  this order, with the intersection \<open>[3, 7) x [2, 8)\<close>. An extent with a present
  intersection is never empty, so no hypothesis on emptiness is needed.
\<close>

theorem intersection_split_tiling:
  assumes len: "length (ext_end self) = length (ext_beg self)"
      "length (ext_beg other) = length (ext_beg self)"
      "length (ext_end other) = length (ext_beg self)"
    and i: "calc_intersection self other = Inr (Some i)"
  shows "(\<exists>ls. calc_intersection_split self other = Inr (ls, Some i) \<and>
            sorted_wrt (\<lambda>x y. idx x \<inter> idx y = {}) ls \<and>
            (\<forall>l\<in>set ls. idx l \<inter> idx i = {}) \<and>
            (\<Union>l\<in>set ls. idx l) \<union> idx i = idx self) \<and>
         calc_intersection_split \<lparr>ext_beg = [0, 0], ext_end = [10, 10]\<rparr>
                                 \<lparr>ext_beg = [3, 2], ext_end = [7, 8]\<rparr> =
           Inr ([\<lparr>ext_beg = [0, 0], ext_end = [3, 10]\<rparr>,
                 \<lparr>ext_beg = [7, 0], ext_end = [10, 10]\<rparr>,
                 \<lparr>ext_beg = [3, 0], ext_end = [7, 2]\<rparr>,
                 \<lparr>ext_beg = [3, 8], ext_end = [7, 10]\<rparr>],
                Some \<lparr>ext_beg = [3, 2], ext_end = [7, 8]\<rparr>)"
proof
  let ?as = "[0..<length (ext_beg self)]"
  have ins: "\<forall>a\<in>set ?as. inside self i a"
    using intersection_inside(1) [OF len i] by simp
  have fin: "final_of self i ?as = i"
    using intersection_inside(2,3) [OF len i] len(1) by (simp add: final_of_all)
  have run: "calc_intersection_split self other = Inr (leftovers_of self i ?as, Some i)"
    using split_loop_eval [OF ins, of "[]"] i
    by (simp add: calc_intersection_split_def ndim_def fin)
  have t: "(\<forall>p. p \<in> idx self \<longleftrightarrow>
            p \<in> idx i \<or> (\<exists>l\<in>set (leftovers_of self i ?as). p \<in> idx l))"
      "(\<forall>l\<in>set (leftovers_of self i ?as). idx l \<inter> idx i = {})"
      "sorted_wrt (\<lambda>x y. idx x \<inter> idx y = {}) (leftovers_of self i ?as)"
    using split_tiling [OF ins] fin by simp_all
  have "(\<Union>l\<in>set (leftovers_of self i ?as). idx l) \<union> idx i = idx self"
    using t(1) by blast
  with run t(2,3)
  show "\<exists>ls. calc_intersection_split self other = Inr (ls, Some i) \<and>
            sorted_wrt (\<lambda>x y. idx x \<inter> idx y = {}) ls \<and>
            (\<forall>l\<in>set ls. idx l \<inter> idx i = {}) \<and>
            (\<Union>l\<in>set ls. idx l) \<union> idx i = idx self"
    by blast
next
  show "calc_intersection_split \<lparr>ext_beg = [0, 0], ext_end = [10, 10]\<rparr>
                                 \<lparr>ext_beg = [3, 2], ext_end = [7, 8]\<rparr> =
           Inr ([\<lparr>ext_beg = [0, 0], ext_end = [3, 10]\<rparr>,
                 \<lparr>ext_beg = [7, 0], ext_end = [10, 10]\<rparr>,
                 \<lparr>ext_beg = [3, 0], ext_end = [7, 2]\<rparr>,
                 \<lparr>ext_beg = [3, 8], ext_end = [7, 10]\<rparr>],
                Some \<lparr>ext_beg = [3, 2], ext_end = [7, 8]\<rparr>)"
    by (simp add: calc_intersection_split_def calc_intersection_def np_binop_def ndim_def
        upt_rec [of 0] upt_rec [of 1] upt_rec [of 2] split_def np_get_def)
qed

text \<open>Claim C3 at \<open>self = [0, 5) x [0, 5)\<close> and \<open>other = [2, 9) x [0, 3)\<close>.\<close>

theorem intersection_split_tiling_witness:
  "calc_intersection \<lparr>ext_beg = [0, 0], ext_end = [5, 5]\<rparr> \<lparr>ext_beg = [2, 0], ext_end = [9, 3]\<rparr>
     = Inr (Some \<lparr>ext_beg = [2, 0], ext_end = [5, 3]\<rparr>) \<and>
   (\<exists>ls. calc_intersection_split \<lparr>ext_beg = [0, 0], ext_end = [5, 5]\<rparr>
                                  \<lparr>ext_beg = [2, 0], ext_end = [9, 3]\<rparr>
            = Inr (ls, Some \<lparr>ext_beg = [2, 0], ext_end = [5, 3]\<rparr>) \<and>
          sorted_wrt (\<lambda>x y. idx x \<inter> idx y = {}) ls \<and>
          (\<forall>l\<in>set ls. idx l \<inter> idx \<lparr>ext_beg = [2, 0], ext_end = [5, 3]\<rparr> = {}) \<and>
          (\<Union>l\<in>set ls. idx l) \<union> idx \<lparr>ext_beg = [2, 0], ext_end = [5, 3]\<rparr>
            = idx \<lparr>ext_beg = [0, 0], ext_end = [5, 5]\<rparr>)"
proof -
  have h: "calc_intersection \<lparr>ext_beg = [0, 0], ext_end = [5, 5]\<rparr>
             \<lparr>ext_beg = [2, 0], ext_end = [9, 3]\<rparr>
           = Inr (Some \<lparr>ext_beg = [2, 0], ext_end = [5, 3]\<rparr>)"
    by (simp add: calc_intersection_def np_binop_def)
  from intersection_split_tiling [OF _ _ _ h] h show ?thesis by simp
qed

section \<open>Claims about the halo-update planner\<close>

text \<open>
  Claim C1 at the tile of coordinate \<open>(0, 0)\<close> of \<open>grid2x2\<close>. The walk along axis 0 on the
  high side produces one record and the walk along axis 1 on the high side produces
  another one, but the bucket \<open>updates[0][HI]\<close> read back after \<open>initialise\<close> holds both, and
  \<open>updates[1][HI]\<close> is the same list: all rows of \<open>_updates\<close> are one list object.
\<close>

theorem initialise_buckets_shared:
  "planned_updates 0 grid2x2 0 HI = Inr [grid_update_axis0, grid_update_axis1] \<and>
   planned_updates 0 grid2x2 1 HI = Inr [grid_update_axis0, grid_update_axis1] \<and>
   walk_records (grid_tile 0 [0, 0] [(0, 2), (0, 2)] [(0, 1), (0, 1)])
       (cart_coord_to_extents_dict grid2x2) 0 HI [1] = Inr [grid_update_axis0] \<and>
   walk_records (grid_tile 0 [0, 0] [(0, 2), (0, 2)] [(0, 1), (0, 1)])
       (cart_coord_to_extents_dict grid2x2) 1 HI [1] = Inr [grid_update_axis1] \<and>
   i_range (grid_tile 0 [0, 0] [(0, 2), (0, 2)] [(0, 1), (0, 1)]) 0 HI = Inr [1] \<and>
   i_range (grid_tile 0 [0, 0] [(0, 2), (0, 2)] [(0, 1), (0, 1)]) 1 HI = Inr [1]"
  by code_simp

text \<open>
  Claim C4, as stated: the overlaps of all the records produced for one destination are
  pairwise disjoint. For the tile at \<open>(0, 0)\<close> of \<open>grid2x2\<close> the plan holds the overlap
  \<open>[2, 3) x [0, 3)\<close> from the neighbour along axis 0 and the overlap \<open>[0, 3) x [2, 3)\<close> from
  the neighbour along axis 1; the corner point \<open>(2, 2)\<close> lies in both, because
  \<open>no_halo_extent(a)\<close> keeps the halo of the source on the other axes.
\<close>

theorem halo_overlaps_corner_counterexample:
  "planned_updates 0 grid2x2 0 HI = Inr [grid_update_axis0, grid_update_axis1] \<and>
   [2, 2] \<in> idx (update_extent grid_update_axis0) \<inter> idx (update_extent grid_update_axis1)"
proof
  show "planned_updates 0 grid2x2 0 HI = Inr [grid_update_axis0, grid_update_axis1]"
    by code_simp
  show "[2, 2] \<in> idx (update_extent grid_update_axis0) \<inter> idx (update_extent grid_update_axis1)"
    by (simp add: grid_update_axis0_def grid_update_axis1_def idx_def less_Suc_eq numeral_2_eq_2)
qed

text \<open>
  Claim C4, amended: in a block partition along axis \<open>a\<close> (the tiles on the line of the
  destination through axis \<open>a\<close> occupy the consecutive intervals given by the cut points
  \<open>cuts\<close>), the overlaps of the records produced for the destination while walking axis
  \<open>a\<close>, on the low side and on the high side together, are pairwise disjoint.
\<close>

theorem halo_overlaps_axis_disjoint:
  assumes bl: "block_line d dst a cuts"
    and il: "i_range dst a LO = Inr il" and ih: "i_range dst a HI = Inr ih"
    and rl: "walk_records dst d a LO il = Inr rl" and rh: "walk_records dst d a HI ih = Inr rh"
  shows "sorted_wrt (\<lambda>u v. idx (update_extent u) \<inter> idx (update_extent v) = {}) (rl @ rh)"
proof -
  let ?R = "\<lambda>i u. \<exists>dir. step_record dst d a dir i u"
  let ?ks = "take (length rl) il @ take (length rh) ih"
  have c: "0 \<le> cart_coord dst ! a" "cart_coord dst ! a < cart_shape dst ! a"
    using bl by (simp_all add: block_line_def)
  have "list_all2 ?R (take (length rl) il) rl"
    using walk_records_steps [OF rl] by (rule list_all2_mono) blast
  moreover have "list_all2 ?R (take (length rh) ih) rh"
    using walk_records_steps [OF rh] by (rule list_all2_mono) blast
  ultimately have all2: "list_all2 ?R ?ks (rl @ rh)"
    by (rule list_all2_appendI)
  have lo: "\<forall>i\<in>set il. 0 \<le> cart_coord dst ! a + i \<and> cart_coord dst ! a + i < cart_shape dst ! a \<and> i < 0"
    using i_range_set [OF il _ c] by auto
  have hi: "\<forall>i\<in>set ih. 0 \<le> cart_coord dst ! a + i \<and> cart_coord dst ! a + i < cart_shape dst ! a \<and> 0 < i"
    using i_range_set [OF ih _ c] by auto
  have sub: "set (take (length rl) il) \<subseteq> set il" "set (take (length rh) ih) \<subseteq> set ih"
    by (simp_all add: set_take_subset)
  have "set (take (length rl) il) \<inter> set (take (length rh) ih) = {}"
    using lo hi sub by fastforce
  then have dist: "distinct ?ks"
    using i_range_distinct [OF il] i_range_distinct [OF ih] by simp
  have inr: "\<forall>i\<in>set ?ks. 0 \<le> cart_coord dst ! a + i \<and> cart_coord dst ! a + i < cart_shape dst ! a"
    using lo hi sub by auto
  show ?thesis
  proof (rule sorted_wrt_from_distinct [OF all2 dist])
    fix k k' u u'
    assume "k \<in> set ?ks" "k' \<in> set ?ks" "k \<noteq> k'"
      and "\<exists>dir. step_record dst d a dir k u" "\<exists>dir. step_record dst d a dir k' u'"
    then show "idx (update_extent u) \<inter> idx (update_extent u') = {}"
      using overlaps_of_distinct_steps [OF bl] inr by blast
  qed
qed

text \<open>
  The amended claim C4 at the tile \<open>[1, 2)\<close> of \<open>line5\<close>: one record on each side, with the
  overlaps \<open>[0, 1)\<close> and \<open>[2, 3)\<close>.
\<close>

theorem halo_overlaps_axis_disjoint_witness:
  "block_line (cart_coord_to_extents_dict line5) (line_tile 5 3 1 (1, 2) (1, 1)) 0 [0, 1, 2, 3, 3, 3] \<and>
   i_range (line_tile 5 3 1 (1, 2) (1, 1)) 0 LO = Inr [- 1] \<and>
   i_range (line_tile 5 3 1 (1, 2) (1, 1)) 0 HI = Inr [1, 2, 3] \<and>
   walk_records (line_tile 5 3 1 (1, 2) (1, 1)) (cart_coord_to_extents_dict line5) 0 LO [- 1]
     = Inr [\<lparr>upd_dst_extent = line_tile 5 3 1 (1, 2) (1, 1),
              upd_src_extent = line_tile 5 3 0 (0, 1) (0, 2),
              update_extent = \<lparr>ext_beg = [0], ext_end = [1]\<rparr>\<rparr>] \<and>
   walk_records (line_tile 5 3 1 (1, 2) (1, 1)) (cart_coord_to_extents_dict line5) 0 HI [1, 2, 3]
     = Inr [\<lparr>upd_dst_extent = line_tile 5 3 1 (1, 2) (1, 1),
              upd_src_extent = line_tile 5 3 2 (2, 3) (2, 0),
              update_extent = \<lparr>ext_beg = [2], ext_end = [3]\<rparr>\<rparr>] \<and>
   sorted_wrt (\<lambda>u v. idx (update_extent u) \<inter> idx (update_extent v) = {})
     ([\<lparr>upd_dst_extent = line_tile 5 3 1 (1, 2) (1, 1),
        upd_src_extent = line_tile 5 3 0 (0, 1) (0, 2),
        update_extent = \<lparr>ext_beg = [0], ext_end = [1]\<rparr>\<rparr>] @
      [\<lparr>upd_dst_extent = line_tile 5 3 1 (1, 2) (1, 1),
        upd_src_extent = line_tile 5 3 2 (2, 3) (2, 0),
        update_extent = \<lparr>ext_beg = [2], ext_end = [3]\<rparr>\<rparr>])"
proof -
  have h1: "block_line (cart_coord_to_extents_dict line5) (line_tile 5 3 1 (1, 2) (1, 1)) 0
              [0, 1, 2, 3, 3, 3]"
    by code_simp
  have h2: "i_range (line_tile 5 3 1 (1, 2) (1, 1)) 0 LO = Inr [- 1]"
    by code_simp
  have h3: "i_range (line_tile 5 3 1 (1, 2) (1, 1)) 0 HI = Inr [1, 2, 3]"
    by code_simp
  have h4: "walk_records (line_tile 5 3 1 (1, 2) (1, 1)) (cart_coord_to_extents_dict line5) 0 LO [- 1]
     = Inr [\<lparr>upd_dst_extent = line_tile 5 3 1 (1, 2) (1, 1),
              upd_src_extent = line_tile 5 3 0 (0, 1) (0, 2),
              update_extent = \<lparr>ext_beg = [0], ext_end = [1]\<rparr>\<rparr>]"
    by code_simp
  have h5: "walk_records (line_tile 5 3 1 (1, 2) (1, 1)) (cart_coord_to_extents_dict line5) 0 HI [1, 2, 3]
     = Inr [\<lparr>upd_dst_extent = line_tile 5 3 1 (1, 2) (1, 1),
              upd_src_extent = line_tile 5 3 2 (2, 3) (2, 0),
              update_extent = \<lparr>ext_beg = [2], ext_end = [3]\<rparr>\<rparr>]"
    by code_simp
  from halo_overlaps_axis_disjoint [OF h1 h2 h3 h4 h5] h1 h2 h3 h4 h5
  show ?thesis by blast
qed

text \<open>
  Claim C5, as stated: the overlap of a record lies in the interior of its source. For the
  record that the tile at \<open>(0, 0)\<close> of \<open>grid2x2\<close> receives from its neighbour along axis 0,
  the point \<open>(2, 2)\<close> lies in the overlap \<open>[2, 3) x [0, 3)\<close> and not in the interior
  \<open>[2, 4) x [0, 2)\<close> of the source: it lies in the halo of the source on axis 1.
\<close>

theorem halo_overlap_source_interior_counterexample:
  "planned_updates 0 grid2x2 0 HI = Inr [grid_update_axis0, grid_update_axis1] \<and>
   [2, 2] \<in> idx (update_extent grid_update_axis0) \<and>
   [2, 2] \<notin> idx (upd_src_extent grid_update_axis0)"
proof (intro conjI)
  show "planned_updates 0 grid2x2 0 HI = Inr [grid_update_axis0, grid_update_axis1]"
    by code_simp
  show "[2, 2] \<in> idx (update_extent grid_update_axis0)"
    by (simp add: grid_update_axis0_def idx_def less_Suc_eq numeral_2_eq_2)
  show "[2, 2] \<notin> idx (upd_src_extent grid_update_axis0)"
    by (simp add: grid_update_axis0_def grid_tile_def idx_def less_Suc_eq numeral_2_eq_2)
qed

text \<open>
  Claim C5, amended: when every tile of the dictionary is well formed (arrays of length
  \<open>n\<close>, \<open>_beg <= _end\<close>, halo not negative, numbers and bounds with halo representable in
  \<open>int64\<close>), every record \<open>u\<close> of the plan for rank \<open>rk\<close> has the extent of \<open>rk\<close> as its
  destination and was made at a step \<open>i\<close> of the walk along an axis \<open>a\<close> on a side \<open>dir\<close>:
  its source is the neighbour at that step, its overlap is the one computed for \<open>a\<close> and
  \<open>dir\<close>, and for this axis \<open>a\<close> the overlap is contained in the halo region of the
  destination (the box with halo minus the interior) and in \<open>no_halo_extent(a)\<close> of the
  source: the box with halo of the source, trimmed to the interior along axis \<open>a\<close> only.
\<close>

theorem halo_overlap_contained:
  assumes tiles: "\<forall>x\<in>set dict. valid_tile n (snd x)"
    and plan: "planned_updates rk dict a' dir' = Inr us"
    and u: "u \<in> set us"
  shows "map_of dict rk = Some (upd_dst_extent u) \<and>
         (\<exists>a dir i js hb nh.
            a < n \<and> i_range (upd_dst_extent u) a dir = Inr js \<and> i \<in> set js \<and>
            neighbour (cart_coord_to_extents_dict dict) (upd_dst_extent u) a i
              = Inr (upd_src_extent u) \<and>
            calc_halo_intersection (upd_dst_extent u) (upd_src_extent u) a dir
              = Inr (Some (update_extent u)) \<and>
            no_halo_extent (upd_dst_extent u) None = Inr hb \<and>
            no_halo_extent (upd_src_extent u) (Some a) = Inr nh \<and>
            idx (update_extent u) \<subseteq> (idx hb - idx (upd_dst_extent u)) \<inter> idx nh)"
proof -
  from planned_updates_from_walk [OF plan u] obtain dst a dir i js where
    dst: "map_of dict rk = Some dst" and ud: "upd_dst_extent u = dst"
    and a: "a < ndim dst"
    and js: "i_range dst a dir = Inr js" "i \<in> set js"
    and nb: "neighbour (cart_coord_to_extents_dict dict) dst a i = Inr (upd_src_extent u)"
    and ov: "calc_halo_intersection dst (upd_src_extent u) a dir = Inr (Some (update_extent u))"
    by (auto simp: from_walk_def)
  have "dst \<in> snd ` set dict" using dst by (force dest: map_of_SomeD)
  then have vd: "valid_tile n dst" using tiles by auto
  have "upd_src_extent u \<in> snd ` set dict" using nb by (rule neighbour_in_dict)
  then have vs: "wf_halo n (upd_src_extent u)" using tiles by (auto simp: valid_tile_def)
  have an: "a < n" using a vd by (simp add: valid_tile_def wf_halo_def ndim_def)
  from overlap_contained [OF vd vs an ov] obtain hb nh where
    c: "no_halo_extent dst None = Inr hb" "no_halo_extent (upd_src_extent u) (Some a) = Inr nh"
      "idx (update_extent u) \<subseteq> (idx hb - idx dst) \<inter> idx nh"
    by blast
  have "\<exists>a dir i js hb nh.
            a < n \<and> i_range dst a dir = Inr js \<and> i \<in> set js \<and>
            neighbour (cart_coord_to_extents_dict dict) dst a i = Inr (upd_src_extent u) \<and>
            calc_halo_intersection dst (upd_src_extent u) a dir = Inr (Some (update_extent u)) \<and>
            no_halo_extent dst None = Inr hb \<and>
            no_halo_extent (upd_src_extent u) (Some a) = Inr nh \<and>
            idx (update_extent u) \<subseteq> (idx hb - idx dst) \<inter> idx nh"
    using an js nb ov c by blast
  with dst show ?thesis unfolding ud by simp
qed

text \<open>
  The amended claim C5 at the first record of the plan of \<open>grid2x2\<close> for rank 0: it was
  made at step 1 of the walk along axis 0 on the high side.
\<close>

theorem halo_overlap_contained_witness:
  "list_all (\<lambda>x. valid_tile 2 (snd x)) grid2x2 \<and>
   planned_updates 0 grid2x2 0 HI = Inr [grid_update_axis0, grid_update_axis1] \<and>
   grid_update_axis0 \<in> set [grid_update_axis0, grid_update_axis1] \<and>
   i_range (upd_dst_extent grid_update_axis0) 0 HI = Inr [1] \<and>
   neighbour (cart_coord_to_extents_dict grid2x2) (upd_dst_extent grid_update_axis0) 0 1
     = Inr (upd_src_extent grid_update_axis0) \<and>
   calc_halo_intersection (upd_dst_extent grid_update_axis0) (upd_src_extent grid_update_axis0) 0 HI
     = Inr (Some (update_extent grid_update_axis0)) \<and>
   map_of grid2x2 0 = Some (upd_dst_extent grid_update_axis0) \<and>
   (\<exists>a dir i js hb nh.
      a < 2 \<and> i_range (upd_dst_extent grid_update_axis0) a dir = Inr js \<and> i \<in> set js \<and>
      neighbour (cart_coord_to_extents_dict grid2x2) (upd_dst_extent grid_update_axis0) a i
        = Inr (upd_src_extent grid_update_axis0) \<and>
      calc_halo_intersection (upd_dst_extent grid_update_axis0)
          (upd_src_extent grid_update_axis0) a dir
        = Inr (Some (update_extent grid_update_axis0)) \<and>
      no_halo_extent (upd_dst_extent grid_update_axis0) None = Inr hb \<and>
      no_halo_extent (upd_src_extent grid_update_axis0) (Some a) = Inr nh \<and>
      idx (update_extent grid_update_axis0)
        \<subseteq> (idx hb - idx (upd_dst_extent grid_update_axis0)) \<inter> idx nh)"
proof -
  have h1: "\<forall>x\<in>set grid2x2. valid_tile 2 (snd x)"
    by code_simp
  have h2: "planned_updates 0 grid2x2 0 HI = Inr [grid_update_axis0, grid_update_axis1]"
    by code_simp
  have h3: "grid_update_axis0 \<in> set [grid_update_axis0, grid_update_axis1]"
    by simp
  have h0: "list_all (\<lambda>x. valid_tile 2 (snd x)) grid2x2"
    using h1 by (simp add: list_all_iff)
  have e1: "i_range (upd_dst_extent grid_update_axis0) 0 HI = Inr [1]"
    by code_simp
  have e2: "neighbour (cart_coord_to_extents_dict grid2x2) (upd_dst_extent grid_update_axis0) 0 1
     = Inr (upd_src_extent grid_update_axis0)"
    by code_simp
  have e3: "calc_halo_intersection (upd_dst_extent grid_update_axis0)
       (upd_src_extent grid_update_axis0) 0 HI
     = Inr (Some (update_extent grid_update_axis0))"
    by code_simp
  from halo_overlap_contained [OF h1 h2 h3] h0 h2 h3 e1 e2 e3
  show ?thesis by blast
qed




section \<open>Claims about the extents of locales and the distribution\<close>

text \<open>
  Claim C6: a \<open>HaloSubExtent\<close> built over a globale extent, with arrays of the same
  length \<open>n\<close> and its interior inside the box with halo of the globale extent, is
  constructed without error; its halo is \<open>max(0, min(distance, requested))\<close> per axis and
  side, hence not negative; its start with halo is not below, and its stop with halo is
  not above, that of the globale extent; and when the globale extent has zero halo these
  bounds are its \<open>start_n\<close> and \<open>stop_n\<close>. A \<open>LocaleExtent\<close> built from the same
  arguments has the same box and the same halo. The numbers are those of \<open>int64\<close> arrays:
  the arguments, the bounds with halo of the globale extent and the two distances
  \<open>start_n - globale.start_h\<close> and \<open>globale.stop_h - stop_n\<close> that the constructor computes
  are representable, so that no difference wraps around; the numbers of the extent
  constructed are then representable too.
\<close>

theorem halo_sub_extent_clamped:
  assumes bounds: "extent_bounds slice start stop = Some (b, e)"
    and len: "length b = n" "length e = n" "length h = n" "wf_halo n globale"
    and gs: "start_h globale = Inr gs" and gt: "stop_h globale = Inr gt"
    and inside: "\<forall>j<n. gs ! j \<le> b ! j \<and> e ! j \<le> gt ! j"
    and grng: "in_int64 n globale"
    and rng: "\<forall>j<n. int64 (b ! j) \<and> int64 (e ! j) \<and>
                     int64 (fst (h ! j)) \<and> int64 (snd (h ! j)) \<and>
                     int64 (b ! j - gs ! j) \<and> int64 (gt ! j - e ! j)"
  shows "\<exists>L ls lt. HaloSubExtent_init globale slice h start stop = Inr L \<and>
           ext_beg L = b \<and> ext_end L = e \<and>
           start_h L = Inr ls \<and> stop_h L = Inr lt \<and> in_int64 n L \<and>
           (\<forall>j<n. halo L ! j = (max 0 (min (b ! j - gs ! j) (fst (h ! j))),
                                max 0 (min (gt ! j - e ! j) (snd (h ! j)))) \<and>
                  0 \<le> fst (halo L ! j) \<and> 0 \<le> snd (halo L ! j) \<and>
                  gs ! j \<le> ls ! j \<and> lt ! j \<le> gt ! j \<and>
                  (halo globale = zero_halo n \<longrightarrow>
                     ext_beg globale ! j \<le> ls ! j \<and> lt ! j \<le> ext_end globale ! j)) \<and>
           (\<forall>r ilr. \<exists>L'. LocaleExtent_init r ilr globale slice h start stop = Inr L' \<and>
                      ext_beg L' = b \<and> ext_end L' = e \<and> halo L' = halo L)"
proof -
  define L :: HaloIndexingExtent where
    "L = \<lparr>ext_beg = b, ext_end = e,
          halo = map (\<lambda>j. (max 0 (min (b ! j - (ext_beg globale ! j - fst (halo globale ! j))) (fst (h ! j))),
                          max 0 (min (ext_end globale ! j + snd (halo globale ! j) - e ! j) (snd (h ! j)))))
                   [0..<n]\<rparr>"
  define ls where "ls = map (\<lambda>j. ext_beg L ! j - fst (halo L ! j)) [0..<n]"
  define lt where "lt = map (\<lambda>j. ext_end L ! j + snd (halo L ! j)) [0..<n]"
  have init: "HaloSubExtent_init globale slice h start stop = Inr L"
    unfolding L_def by (rule HaloSubExtent_init_wf [OF bounds len])
  have be: "ext_beg L = b" "ext_end L = e" by (simp_all add: L_def)
  have wl: "wf_halo n L" using len by (simp add: wf_halo_def L_def)
  have sl: "start_h L = Inr ls" unfolding ls_def by (rule start_h_wf [OF wl])
  have tl: "stop_h L = Inr lt" unfolding lt_def by (rule stop_h_wf [OF wl])
  have gs': "gs = map (\<lambda>j. ext_beg globale ! j - fst (halo globale ! j)) [0..<n]"
    using gs start_h_wf [OF len(4)] by simp
  have gt': "gt = map (\<lambda>j. ext_end globale ! j + snd (halo globale ! j)) [0..<n]"
    using gt stop_h_wf [OF len(4)] by simp
  have hjs: "\<forall>j<n. halo L ! j = (max 0 (min (b ! j - gs ! j) (fst (h ! j))),
                                max 0 (min (gt ! j - e ! j) (snd (h ! j))))"
    by (simp add: gs' gt' L_def)
  have pts: "\<forall>j<n. halo L ! j = (max 0 (min (b ! j - gs ! j) (fst (h ! j))),
                                max 0 (min (gt ! j - e ! j) (snd (h ! j)))) \<and>
                  0 \<le> fst (halo L ! j) \<and> 0 \<le> snd (halo L ! j) \<and>
                  gs ! j \<le> ls ! j \<and> lt ! j \<le> gt ! j \<and>
                  (halo globale = zero_halo n \<longrightarrow>
                     ext_beg globale ! j \<le> ls ! j \<and> lt ! j \<le> ext_end globale ! j)"
  proof (intro allI impI)
    fix j assume j: "j < n"
    have g1: "gs ! j = ext_beg globale ! j - fst (halo globale ! j)"
      and g2: "gt ! j = ext_end globale ! j + snd (halo globale ! j)"
      using j by (simp_all add: gs' gt')
    have i1: "gs ! j \<le> b ! j" and i2: "e ! j \<le> gt ! j" using inside j by simp_all
    have hj: "halo L ! j = (max 0 (min (b ! j - gs ! j) (fst (h ! j))),
                             max 0 (min (gt ! j - e ! j) (snd (h ! j))))"
      using hjs j by simp
    have lsj: "ls ! j = b ! j - max 0 (min (b ! j - gs ! j) (fst (h ! j)))"
      using j by (simp add: ls_def be hj)
    have ltj: "lt ! j = e ! j + max 0 (min (gt ! j - e ! j) (snd (h ! j)))"
      using j by (simp add: lt_def be hj)
    have a1: "gs ! j \<le> ls ! j" unfolding lsj using i1 by linarith
    have a2: "lt ! j \<le> gt ! j" unfolding ltj using i2 by linarith
    have a3: "0 \<le> fst (halo L ! j)" "0 \<le> snd (halo L ! j)" unfolding hj by simp_all
    have a4: "halo globale = zero_halo n \<longrightarrow>
                     ext_beg globale ! j \<le> ls ! j \<and> lt ! j \<le> ext_end globale ! j"
    proof
      assume "halo globale = zero_halo n"
      then have "gs ! j = ext_beg globale ! j" "gt ! j = ext_end globale ! j"
        using j by (simp_all add: g1 g2 zero_halo_def)
      with a1 a2 show "ext_beg globale ! j \<le> ls ! j \<and> lt ! j \<le> ext_end globale ! j"
        by simp
    qed
    show "halo L ! j = (max 0 (min (b ! j - gs ! j) (fst (h ! j))),
                                max 0 (min (gt ! j - e ! j) (snd (h ! j)))) \<and>
                  0 \<le> fst (halo L ! j) \<and> 0 \<le> snd (halo L ! j) \<and>
                  gs ! j \<le> ls ! j \<and> lt ! j \<le> gt ! j \<and>
                  (halo globale = zero_halo n \<longrightarrow>
                     ext_beg globale ! j \<le> ls ! j \<and> lt ! j \<le> ext_end globale ! j)"
      by (intro conjI hj a1 a2 a3 a4)
  qed
  have rl: "in_int64 n L"
    unfolding in_int64_def
  proof
    fix j assume "j \<in> set [0..<n]"
    then have j: "j < n" by simp
    have g: "int64 (gs ! j)" "int64 (gt ! j)"
      using grng j by (simp_all add: in_int64_def gs' gt')
    have r: "int64 (b ! j)" "int64 (e ! j)" "int64 (b ! j - gs ! j)" "int64 (gt ! j - e ! j)"
      using rng j by simp_all
    have i1: "gs ! j \<le> b ! j" and i2: "e ! j \<le> gt ! j" using inside j by simp_all
    have hj: "fst (halo L ! j) = max 0 (min (b ! j - gs ! j) (fst (h ! j)))"
      "snd (halo L ! j) = max 0 (min (gt ! j - e ! j) (snd (h ! j)))"
      using hjs j by simp_all
    have lo: "0 \<le> fst (halo L ! j)" "fst (halo L ! j) \<le> b ! j - gs ! j"
      unfolding hj using i1 by linarith+
    have hi: "0 \<le> snd (halo L ! j)" "snd (halo L ! j) \<le> gt ! j - e ! j"
      unfolding hj using i2 by linarith+
    show "int64 (ext_beg L ! j) \<and> int64 (ext_end L ! j) \<and>
        int64 (fst (halo L ! j)) \<and> int64 (snd (halo L ! j)) \<and>
        int64 (ext_beg L ! j - fst (halo L ! j)) \<and> int64 (ext_end L ! j + snd (halo L ! j))"
      using g r lo hi unfolding be int64_def by linarith
  qed
  have loc: "\<forall>r ilr. \<exists>L'. LocaleExtent_init r ilr globale slice h start stop = Inr L' \<and>
                      ext_beg L' = b \<and> ext_end L' = e \<and> halo L' = halo L"
    by (simp add: LocaleExtent_init_def init be)
  from init be sl tl rl pts loc show ?thesis by blast
qed

text \<open>
  Claim C6 at the locale \<open>[0, 5) x [5, 10)\<close> of the array \<open>[0, 10) x [0, 10)\<close> with the
  requested halo \<open>((1, 2), (2, 1))\<close>.
\<close>

theorem halo_sub_extent_clamped_witness:
  "extent_bounds (Some [(0, 5), (5, 10)]) None None = Some ([0, 5], [5, 10]) \<and>
   wf_halo 2 \<lparr>ext_beg = [0, 0], ext_end = [10, 10], halo = zero_halo 2\<rparr> \<and>
   in_int64 2 \<lparr>ext_beg = [0, 0], ext_end = [10, 10], halo = zero_halo 2\<rparr> \<and>
   start_h \<lparr>ext_beg = [0, 0], ext_end = [10, 10], halo = zero_halo 2\<rparr> = Inr [0, 0] \<and>
   stop_h \<lparr>ext_beg = [0, 0], ext_end = [10, 10], halo = zero_halo 2\<rparr> = Inr [10, 10] \<and>
   [0, 0] ! 0 \<le> [0, 5 :: int] ! 0 \<and> [5, 10 :: int] ! 0 \<le> [10, 10] ! 0 \<and>
   [0, 0] ! 1 \<le> [0, 5 :: int] ! 1 \<and> [5, 10 :: int] ! 1 \<le> [10, 10] ! 1 \<and>
   int64 ([0, 5] ! 0 - [0, 0] ! 0) \<and> int64 ([10, 10] ! 0 - [5, 10] ! 0) \<and>
   int64 ([0, 5] ! 1 - [0, 0] ! 1) \<and> int64 ([10, 10] ! 1 - [5, 10] ! 1) \<and>
   HaloSubExtent_init \<lparr>ext_beg = [0, 0], ext_end = [10, 10], halo = zero_halo 2\<rparr>
       (Some [(0, 5), (5, 10)]) [(1, 2), (2, 1)] None None
     = Inr \<lparr>ext_beg = [0, 5], ext_end = [5, 10], halo = [(0, 2), (2, 0)]\<rparr> \<and>
   (\<exists>L ls lt.
      HaloSubExtent_init \<lparr>ext_beg = [0, 0], ext_end = [10, 10], halo = zero_halo 2\<rparr>
          (Some [(0, 5), (5, 10)]) [(1, 2), (2, 1)] None None = Inr L \<and>
      start_h L = Inr ls \<and> stop_h L = Inr lt \<and> in_int64 2 L \<and>
      (\<forall>j<2. 0 \<le> fst (halo L ! j) \<and> 0 \<le> snd (halo L ! j) \<and>
              [0, 0] ! j \<le> ls ! j \<and> lt ! j \<le> [10, 10] ! j))"
proof -
  let ?G = "\<lparr>ext_beg = [0, 0], ext_end = [10, 10], halo = zero_halo 2\<rparr>"
  have h1: "extent_bounds (Some [(0, 5), (5, 10)]) None None = Some ([0, 5], [5, 10])"
    by (simp add: extent_bounds_def)
  have l1: "length [0, 5 :: int] = 2" and l2: "length [5, 10 :: int] = 2"
    and l3: "length [(1, 2), (2, 1 :: int) :: int \<times> int] = 2" by simp_all
  have h2: "wf_halo 2 ?G" by (simp add: wf_halo_def zero_halo_def numeral_2_eq_2)
  have h3: "start_h ?G = Inr [0, 0]"
    by (simp add: start_h_def zero_halo_def numeral_2_eq_2 np_binop_def)
  have h4: "stop_h ?G = Inr [10, 10]"
    by (simp add: stop_h_def zero_halo_def numeral_2_eq_2 np_binop_def)
  have h5: "\<forall>j<2. [0, 0] ! j \<le> [0, 5 :: int] ! j \<and> [5, 10 :: int] ! j \<le> [10, 10] ! j"
    by (simp add: less_Suc_eq numeral_2_eq_2)
  have h7: "in_int64 2 ?G"
    by code_simp
  have h8: "\<forall>j<2. int64 ([0, 5] ! j) \<and> int64 ([5, 10] ! j) \<and>
                 int64 (fst ([(1, 2), (2, 1)] ! j)) \<and> int64 (snd ([(1, 2), (2, 1)] ! j)) \<and>
                 int64 ([0, 5] ! j - [0, 0] ! j) \<and> int64 ([10, 10] ! j - [5, 10] ! j)"
    by (simp add: less_Suc_eq numeral_2_eq_2 int64_def)
  have ev: "HaloSubExtent_init ?G (Some [(0, 5), (5, 10)]) [(1, 2), (2, 1)] None None
     = Inr \<lparr>ext_beg = [0, 5], ext_end = [5, 10], halo = [(0, 2), (2, 0)]\<rparr>"
    by code_simp
  have h6: "[0, 0] ! 0 \<le> [0, 5 :: int] ! 0 \<and> [5, 10 :: int] ! 0 \<le> [10, 10] ! 0 \<and>
            [0, 0] ! 1 \<le> [0, 5 :: int] ! 1 \<and> [5, 10 :: int] ! 1 \<le> [10, 10] ! 1"
    by simp
  have h9: "int64 ([0, 5] ! 0 - [0, 0] ! 0) \<and> int64 ([10, 10] ! 0 - [5, 10] ! 0) \<and>
            int64 ([0, 5] ! 1 - [0, 0] ! 1) \<and> int64 ([10, 10] ! 1 - [5, 10] ! 1)"
    by (simp add: int64_def)
  from halo_sub_extent_clamped [OF h1 l1 l2 l3 h2 h3 h4 h5 h7 h8] h1 h2 h3 h4 h6 h7 h9 ev
  show ?thesis by blast
qed

text \<open>
  Claim C9, as stated: two \<open>LocaleExtent\<close>s that differ only in their halo compare
  unequal. The locale \<open>[2, 6)\<close> of the array \<open>[0, 10)\<close> built with the requested halo
  \<open>(1, 1)\<close> and the one built with the requested halo \<open>(0, 0)\<close> have different halos, the
  same box and the same ranks, and \<open>__eq__\<close> returns \<open>True\<close>.
\<close>

theorem locale_extent_eq_halo_counterexample:
  "LocaleExtent_init 0 0 \<lparr>ext_beg = [0], ext_end = [10], halo = [(0, 0)]\<rparr> None [(1, 1)]
       (Some [2]) (Some [6])
     = Inr \<lparr>ext_beg = [2], ext_end = [6], halo = [(1, 1)], rank = 0, inter_locale_rank = 0\<rparr> \<and>
   LocaleExtent_init 0 0 \<lparr>ext_beg = [0], ext_end = [10], halo = [(0, 0)]\<rparr> None [(0, 0)]
       (Some [2]) (Some [6])
     = Inr \<lparr>ext_beg = [2], ext_end = [6], halo = [(0, 0)], rank = 0, inter_locale_rank = 0\<rparr> \<and>
   LocaleExtent_eq
       \<lparr>ext_beg = [2], ext_end = [6], halo = [(1, 1)], rank = 0, inter_locale_rank = 0\<rparr>
       \<lparr>ext_beg = [2], ext_end = [6], halo = [(0, 0)], rank = 0, inter_locale_rank = 0\<rparr>
     = Inr True"
  by code_simp

text \<open>
  Claim C9, amended: for \<open>LocaleExtent\<close>s \<open>A\<close> and \<open>B\<close> of the same dimension, \<open>A == B\<close>
  holds if and only if they have the same \<open>_beg\<close>, the same \<open>_end\<close>, the same \<open>rank\<close> and
  the same \<open>inter_locale_rank\<close>; the halo is not compared.
\<close>

theorem locale_extent_eq_box_and_ranks:
  assumes "length (ext_beg B) = length (ext_beg A)"
    and "length (ext_end A) = length (ext_beg A)"
    and "length (ext_end B) = length (ext_beg A)"
  shows "LocaleExtent_eq A B =
           Inr (ext_beg A = ext_beg B \<and> ext_end A = ext_end B \<and>
                rank A = rank B \<and> inter_locale_rank A = inter_locale_rank B)"
proof -
  have "IndexingExtent_eq A B = Inr (ext_beg A = ext_beg B \<and> ext_end A = ext_end B)"
    using assms by (intro IndexingExtent_eq_wf) simp_all
  then show ?thesis
    by (simp add: LocaleExtent_eq_def)
qed

text \<open>
  The amended claim C9 at two locales with the same box and different
  \<open>inter_locale_rank\<close>.
\<close>

theorem locale_extent_eq_box_and_ranks_witness:
  "length (ext_beg \<lparr>ext_beg = [2], ext_end = [6], halo = [(0, 0)], rank = 0, inter_locale_rank = 1\<rparr>) =
     length (ext_beg \<lparr>ext_beg = [2], ext_end = [6], halo = [(1, 1)], rank = 0, inter_locale_rank = 0\<rparr>) \<and>
   LocaleExtent_eq
       \<lparr>ext_beg = [2], ext_end = [6], halo = [(1, 1)], rank = 0, inter_locale_rank = 0\<rparr>
       \<lparr>ext_beg = [2], ext_end = [6], halo = [(0, 0)], rank = 0, inter_locale_rank = 1\<rparr>
     = Inr False"
  using locale_extent_eq_box_and_ranks
    [of "\<lparr>ext_beg = [2], ext_end = [6], halo = [(0, 0)], rank = 0, inter_locale_rank = 1\<rparr>"
        "\<lparr>ext_beg = [2], ext_end = [6], halo = [(1, 1)], rank = 0, inter_locale_rank = 0\<rparr>"]
  by simp

text \<open>
  Claim C10: without a table \<open>inter_locale_rank_to_rank\<close>, \<open>get_rank\<close> returns
  \<open>UNDEFINED\<close> for every inter-locale rank, every object that \<open>create_locale_extent\<close>
  returns has that rank and the inter-locale rank it was created for, and so has every
  locale extent of a \<open>Distribution\<close> that was constructed, at its own index.
\<close>

theorem undefined_rank_without_table:
  "get_rank U None r = Inr U \<and>
   (create_locale_extent U t None i le g h kw = Inr obj \<longrightarrow>
      rank_of obj = U \<and> inter_locale_rank_of obj = int i) \<and>
   (Distribution_init U globale les h t None kwargs_of = Inr dist \<longrightarrow>
      length (locale_extents dist) = length les \<and>
      (\<forall>k<length les. rank_of (locale_extents dist ! k) = U \<and>
                       inter_locale_rank_of (locale_extents dist ! k) = int k))"
proof (intro conjI impI)
  show "get_rank U None r = Inr U" by (simp add: get_rank_def)
next
  assume "create_locale_extent U t None i le g h kw = Inr obj"
  then show "rank_of obj = U" "inter_locale_rank_of obj = int i"
    using create_locale_extent_ranks by blast+
next
  assume d: "Distribution_init U globale les h t None kwargs_of = Inr dist"
  then obtain g0 where "create_locale_extents U t None g0 h kwargs_of 0 les = Inr (locale_extents dist)"
    by (auto simp: Distribution_init_def bind_e_eq_Inr)
  from create_locale_extents_ranks [OF this]
  show "length (locale_extents dist) = length les"
    "\<forall>k<length les. rank_of (locale_extents dist ! k) = U \<and>
                       inter_locale_rank_of (locale_extents dist ! k) = int k"
    by simp_all
qed

text \<open>
  Claim C10 at the block partition of twelve elements over four locales with a requested
  halo of two (\<open>UNDEFINED\<close> taken as \<open>-32766\<close>).
\<close>

theorem undefined_rank_without_table_witness:
  "create_locale_extent (- 32766) CartLocaleExtentT None 1 (Slices [(3, 6)])
       \<lparr>ext_beg = [0], ext_end = [12], halo = [(0, 0)]\<rparr> [(2, 2)] (Some ([1], [4]))
     = Inr (CartLocale \<lparr>ext_beg = [3], ext_end = [6], halo = [(2, 2)], rank = - 32766,
              inter_locale_rank = 1, locale_cart_coord = [1], locale_cart_shape = [4]\<rparr>) \<and>
   rank_of (CartLocale \<lparr>ext_beg = [3], ext_end = [6], halo = [(2, 2)], rank = - 32766,
              inter_locale_rank = 1, locale_cart_coord = [1], locale_cart_shape = [4]\<rparr>) = - 32766 \<and>
   (\<exists>dist.
      Distribution_init (- 32766) (Shape [12])
          [Slices [(0, 3)], Slices [(3, 6)], Slices [(6, 9)], Slices [(9, 12)]] [(2, 2)]
          CartLocaleExtentT None (cart_kwargs [([0], 0), ([1], 1), ([2], 2), ([3], 3)] [4])
        = Inr dist \<and>
      length (locale_extents dist) = 4 \<and>
      (\<forall>k<4. rank_of (locale_extents dist ! k) = - 32766 \<and>
              inter_locale_rank_of (locale_extents dist ! k) = int k))"
proof -
  let ?obj = "CartLocale \<lparr>ext_beg = [3], ext_end = [6], halo = [(2, 2)], rank = - 32766,
              inter_locale_rank = 1, locale_cart_coord = [1], locale_cart_shape = [4]\<rparr>"
  let ?dist = "\<lparr>locale_extent_type = CartLocaleExtentT, inter_locale_rank_to_rank = None,
        globale_extent = \<lparr>ext_beg = [0], ext_end = [12], halo = [(0, 0)]\<rparr>,
        distribution_halo = [(2, 2)],
        locale_extents =
          [CartLocale \<lparr>ext_beg = [0], ext_end = [3], halo = [(0, 2)], rank = - 32766,
               inter_locale_rank = 0, locale_cart_coord = [0], locale_cart_shape = [4]\<rparr>,
           CartLocale \<lparr>ext_beg = [3], ext_end = [6], halo = [(2, 2)], rank = - 32766,
               inter_locale_rank = 1, locale_cart_coord = [1], locale_cart_shape = [4]\<rparr>,
           CartLocale \<lparr>ext_beg = [6], ext_end = [9], halo = [(2, 2)], rank = - 32766,
               inter_locale_rank = 2, locale_cart_coord = [2], locale_cart_shape = [4]\<rparr>,
           CartLocale \<lparr>ext_beg = [9], ext_end = [12], halo = [(2, 0)], rank = - 32766,
               inter_locale_rank = 3, locale_cart_coord = [3], locale_cart_shape = [4]\<rparr>]\<rparr>"
  have h1: "create_locale_extent (- 32766) CartLocaleExtentT None 1 (Slices [(3, 6)])
       \<lparr>ext_beg = [0], ext_end = [12], halo = [(0, 0)]\<rparr> [(2, 2)] (Some ([1], [4])) = Inr ?obj"
    by code_simp
  have h2: "Distribution_init (- 32766) (Shape [12])
          [Slices [(0, 3)], Slices [(3, 6)], Slices [(6, 9)], Slices [(9, 12)]] [(2, 2)]
          CartLocaleExtentT None (cart_kwargs [([0], 0), ([1], 1), ([2], 2), ([3], 3)] [4])
        = Inr ?dist"
    by code_simp
  have t: "rank_of ?obj = - 32766 \<and>
      length (locale_extents ?dist) = length [Slices [(0, 3)], Slices [(3, 6)], Slices [(6, 9)], Slices [(9, 12)]] \<and>
      (\<forall>k<length [Slices [(0, 3)], Slices [(3, 6)], Slices [(6, 9)], Slices [(9, 12)]].
          rank_of (locale_extents ?dist ! k) = - 32766 \<and>
          inter_locale_rank_of (locale_extents ?dist ! k) = int k)"
    using undefined_rank_without_table
      [of "- 32766" 0 CartLocaleExtentT 1 "Slices [(3, 6)]"
          "\<lparr>ext_beg = [0], ext_end = [12], halo = [(0, 0)]\<rparr>" "[(2, 2)]" "Some ([1], [4])" ?obj
          "Shape [12]" "[Slices [(0, 3)], Slices [(3, 6)], Slices [(6, 9)], Slices [(9, 12)]]"
          "cart_kwargs [([0], 0), ([1], 1), ([2], 2), ([3], 3)] [4]" ?dist]
      h1 h2
    by blast
  have "length (locale_extents ?dist) = 4 \<and>
      (\<forall>k<4. rank_of (locale_extents ?dist ! k) = - 32766 \<and>
              inter_locale_rank_of (locale_extents ?dist ! k) = int k)"
    using t by simp
  with h1 h2 t show ?thesis by blast
qed

end

